theory Spec2Isabelle
  imports Main
begin

section \<open>JavaScript values\<close>

text \<open>
  The extension (the JavaScript part of \<^verbatim>\<open>src/Makefile\<close>, lines 56 to 689) works on
  the result of \<^verbatim>\<open>JSON.parse\<close>. A value is \<^verbatim>\<open>undefined\<close> (a missing property),
  \<^verbatim>\<open>null\<close>, a boolean, a number, a string, an array or an object. An object is the list
  of its own properties in the order in which \<^verbatim>\<open>Object.values\<close> and
  \<^verbatim>\<open>Object.entries\<close> enumerate them; a property is read by the first pair with
  its key. A number is kept as the text that \<^verbatim>\<open>ToString\<close> gives for it, such as
  \<^verbatim>\<open>123\<close>, \<^verbatim>\<open>-5\<close>, \<^verbatim>\<open>123.7\<close> or \<^verbatim>\<open>1e+21\<close>: the code reads the
  numbers of a payload only through this text (\<^verbatim>\<open>parseInt\<close>, \<^verbatim>\<open>RegExp.test\<close>,
  template literals) and through their truth value, so every double is covered, and so are
  texts that no double prints as. Strings are lists of code units below 256.
\<close>

datatype jsval =
    JUndefined
  | JNull
  | JBool bool
  | JNum string
  | JStr string
  | JArr "jsval list"
  | JObj "(string \<times> jsval) list"

text \<open>The only exception the code can meet: a \<^verbatim>\<open>TypeError\<close> of the engine.\<close>

datatype exn = TypeError

text \<open>\<^verbatim>\<open>a ?? b\<close>: the left operand unless it is \<^verbatim>\<open>null\<close> or \<^verbatim>\<open>undefined\<close>.\<close>

fun nullish :: "jsval \<Rightarrow> bool" where
  "nullish JUndefined = True"
| "nullish JNull = True"
| "nullish _ = False"

definition orElse :: "jsval \<Rightarrow> jsval \<Rightarrow> jsval" where
  "orElse a b = (if nullish a then b else a)"

text \<open>\<^verbatim>\<open>ToBoolean\<close>: what \<^verbatim>\<open>if (v)\<close> and \<^verbatim>\<open>!v\<close> test. The falsy numbers are
  the two zeros, which both print as \<^verbatim>\<open>0\<close>, and \<^verbatim>\<open>NaN\<close>.\<close>

fun truthy :: "jsval \<Rightarrow> bool" where
  "truthy JUndefined = False"
| "truthy JNull = False"
| "truthy (JBool b) = b"
| "truthy (JNum s) = (s \<noteq> ''0'' \<and> s \<noteq> ''NaN'')"
| "truthy (JStr s) = (s \<noteq> [])"
| "truthy (JArr _) = True"
| "truthy (JObj _) = True"

text \<open>
  \<^verbatim>\<open>v?.key\<close> for the keys the code reads (none of them is a property of a prototype):
  the own property of an object, \<^verbatim>\<open>undefined\<close> on everything else.
\<close>

fun lookup :: "(string \<times> jsval) list \<Rightarrow> string \<Rightarrow> jsval" where
  "lookup [] k = JUndefined"
| "lookup ((k', v) # kvs) k = (if k' = k then v else lookup kvs k)"

fun getp :: "jsval \<Rightarrow> string \<Rightarrow> jsval" where
  "getp (JObj kvs) k = lookup kvs k"
| "getp _ k = JUndefined"

text \<open>\<^verbatim>\<open>v?.[0]\<close>: the first element of an array, the first character of a string,
  the property \<^verbatim>\<open>"0"\<close> of an object.\<close>

fun get0 :: "jsval \<Rightarrow> jsval" where
  "get0 (JArr (x # _)) = x"
| "get0 (JStr (c # _)) = JStr [c]"
| "get0 (JObj kvs) = lookup kvs ''0''"
| "get0 _ = JUndefined"

section \<open>Conversion to strings\<close>

definition digit_char :: "nat \<Rightarrow> char" where
  "digit_char d = char_of (48 + d)"

fun show_nat :: "nat \<Rightarrow> string" where
  "show_nat n = (if n < 10 then [digit_char n] else show_nat (n div 10) @ [digit_char (n mod 10)])"

declare show_nat.simps [simp del]

definition show_int :: "int \<Rightarrow> string" where
  "show_int i = (if i < 0 then CHR ''-'' # show_nat (nat (- i)) else show_nat (nat i))"

text \<open>
  \<^verbatim>\<open>ToString\<close>. An array is joined with commas, \<^verbatim>\<open>null\<close> and
  \<^verbatim>\<open>undefined\<close> elements giving the empty string. A parsed object has no callable
  property of its own, so one whose own properties include \<^verbatim>\<open>toString\<close> hides
  \<^verbatim>\<open>Object.prototype.toString\<close>; \<^verbatim>\<open>valueOf\<close>, own or inherited, yields no
  primitive, and the conversion throws a \<^verbatim>\<open>TypeError\<close>. Every other object is
  \<^verbatim>\<open>[object Object]\<close>.
\<close>

fun toStr :: "jsval \<Rightarrow> exn + string"
  and joinStr :: "jsval list \<Rightarrow> exn + string"
  and elemStr :: "jsval \<Rightarrow> exn + string" where
  "toStr JUndefined = Inr ''undefined''"
| "toStr JNull = Inr ''null''"
| "toStr (JBool b) = Inr (if b then ''true'' else ''false'')"
| "toStr (JNum s) = Inr s"
| "toStr (JStr s) = Inr s"
| "toStr (JArr xs) = joinStr xs"
| "toStr (JObj kvs) =
     (if ''toString'' \<in> set (map fst kvs) then Inl TypeError else Inr ''[object Object]'')"
| "joinStr [] = Inr []"
| "joinStr [x] = elemStr x"
| "joinStr (x # y # ys) =
     (case elemStr x of
        Inl e \<Rightarrow> Inl e
      | Inr s \<Rightarrow> (case joinStr (y # ys) of Inl e \<Rightarrow> Inl e | Inr t \<Rightarrow> Inr (s @ '','' @ t)))"
| "elemStr x = (if nullish x then Inr [] else toStr x)"

text \<open>
  The number with the integer value \<open>n\<close>. An integer double below \<open>10 ^ 21\<close> in
  magnitude prints in plain decimal, and every integer up to \<open>2 ^ 53\<close> in magnitude is
  a double.
\<close>

definition num :: "int \<Rightarrow> jsval" where
  "num n = JNum (show_int n)"

section \<open>Regular expressions of the code\<close>

text \<open>
  The patterns of the code are alternatives of literal characters, \<^verbatim>\<open>.\<close> and
  \<^verbatim>\<open>.?\<close>, all with the flag \<^verbatim>\<open>i\<close>. Without the flag \<^verbatim>\<open>u\<close> a letter of the
  pattern matches exactly its two ASCII cases; \<^verbatim>\<open>.\<close> matches every code unit but a
  line terminator.
\<close>

datatype atom = Ch char | Dot | OptDot

definition canon :: "char \<Rightarrow> char" where
  "canon c = (let n = of_char c :: nat in if 97 \<le> n \<and> n \<le> 122 then char_of (n - 32) else c)"

definition line_terminator :: "char \<Rightarrow> bool" where
  "line_terminator c = ((of_char c :: nat) = 10 \<or> (of_char c :: nat) = 13)"

fun match_here :: "atom list \<Rightarrow> string \<Rightarrow> bool" where
  "match_here [] s = True"
| "match_here (Ch c # p) [] = False"
| "match_here (Ch c # p) (x # s) = (canon x = canon c \<and> match_here p s)"
| "match_here (Dot # p) [] = False"
| "match_here (Dot # p) (x # s) = (\<not> line_terminator x \<and> match_here p s)"
| "match_here (OptDot # p) [] = match_here p []"
| "match_here (OptDot # p) (x # s) =
     ((\<not> line_terminator x \<and> match_here p s) \<or> match_here p (x # s))"

text \<open>\<^verbatim>\<open>RegExp.test\<close> without anchors: a match at some position.\<close>

fun search :: "atom list \<Rightarrow> string \<Rightarrow> bool" where
  "search p [] = match_here p []"
| "search p (x # s) = (match_here p (x # s) \<or> search p s)"

definition lit :: "string \<Rightarrow> atom list" where
  "lit s = map Ch s"

definition re_5hour_dot :: "atom list" where
  "re_5hour_dot = Ch CHR ''5'' # Dot # lit ''hour''"

definition re_5hour_optdot :: "atom list" where
  "re_5hour_optdot = Ch CHR ''5'' # OptDot # lit ''hour''"

text \<open>\<^verbatim>\<open>/5.hour|5hour|window/i\<close> (Schema A).\<close>

definition test_sessionA :: "string \<Rightarrow> bool" where
  "test_sessionA s =
     (search re_5hour_dot s \<or> search (lit ''5hour'') s \<or> search (lit ''window'') s)"

text \<open>\<^verbatim>\<open>/5.hour|5hour|session|window/i\<close> (Schema B).\<close>

definition test_sessionB :: "string \<Rightarrow> bool" where
  "test_sessionB s =
     (search re_5hour_dot s \<or> search (lit ''5hour'') s \<or> search (lit ''session'') s
      \<or> search (lit ''window'') s)"

text \<open>\<^verbatim>\<open>/week/i\<close>, \<^verbatim>\<open>/5.?hour/i\<close>, \<^verbatim>\<open>/used/i\<close>, \<^verbatim>\<open>/limit|total/i\<close>.\<close>

definition test_week :: "string \<Rightarrow> bool" where
  "test_week s = search (lit ''week'') s"

definition test_5hour :: "string \<Rightarrow> bool" where
  "test_5hour s = search re_5hour_optdot s"

definition test_used :: "string \<Rightarrow> bool" where
  "test_used s = search (lit ''used'') s"

definition test_limit_total :: "string \<Rightarrow> bool" where
  "test_limit_total s = (search (lit ''limit'') s \<or> search (lit ''total'') s)"

section \<open>Doubles\<close>

text \<open>
  The numbers of the engine are IEEE 754 doubles. What the code computes with them is an
  integer, an infinity or \<^verbatim>\<open>NaN\<close>; the two zeros are not told apart, no operation of
  the code does.
\<close>

datatype number = NaN | PosInfinity | NegInfinity | Finite int

text \<open>The number of binary digits of a positive integer.\<close>

function bitlen :: "int \<Rightarrow> int" where
  "bitlen n = (if n \<le> 0 then 0 else 1 + bitlen (n div 2))"
  by pat_completeness auto

termination
  by (relation "measure nat") auto

declare bitlen.simps [simp del]

text \<open>
  The integer nearest to \<open>n / d\<close> for \<open>n\<close> not negative and \<open>d\<close> positive, a tie
  going to the even one.
\<close>

definition nearest_even :: "int \<Rightarrow> int \<Rightarrow> int" where
  "nearest_even n d =
     (let q = n div d; r = n mod d
      in if d < 2 * r \<or> (2 * r = d \<and> odd q) then q + 1 else q)"

text \<open>
  The double nearest to the quotient \<open>n / d\<close> of two integers, \<open>n\<close> not negative and
  \<open>d\<close> positive (\<^verbatim>\<open>roundTiesToEven\<close>): the pair \<open>(m, x)\<close> stands for
  \<open>m * 2 ^ x\<close>, and \<open>None\<close> for an overflow to infinity. With
  \<open>2 ^ e \<le> n / d < 2 ^ (e + 1)\<close> the doubles around the quotient are the multiples of
  \<open>2 ^ (e - 52)\<close>, and of \<open>2 ^ - 1074\<close> in the subnormal range.
\<close>

definition fl :: "int \<Rightarrow> int \<Rightarrow> (int \<times> int) option" where
  "fl n d =
     (if n = 0 then Some (0, 0)
      else
        (let k = bitlen n - bitlen d;
             e = (if (if 0 \<le> k then d * 2 ^ nat k \<le> n else d \<le> n * 2 ^ nat (- k))
                  then k else k - 1);
             x = max (e - 52) (- 1074);
             m = (if 0 \<le> x then nearest_even n (d * 2 ^ nat x)
                  else nearest_even (n * 2 ^ nat (- x)) d)
         in if 0 \<le> x \<and> 2 ^ 1024 \<le> m * 2 ^ nat x then None else Some (m, x)))"

text \<open>A double: \<open>Val m x\<close> is \<open>m * 2 ^ x\<close>, \<open>Infinite neg\<close> an infinity with its sign.\<close>

datatype double = Val int int | Infinite bool

definition fl_signed :: "int \<Rightarrow> int \<Rightarrow> double" where
  "fl_signed n d =
     (case fl \<bar>n\<bar> d of
        None \<Rightarrow> Infinite (n < 0)
      | Some (m, x) \<Rightarrow> Val (if n < 0 then - m else m) x)"

text \<open>
  The double nearest to an integer that is not negative: all integers up to \<open>2 ^ 53\<close>
  are doubles.
\<close>

definition round_double :: "int \<Rightarrow> number" where
  "round_double a =
     (if a \<le> 2 ^ 53 then Finite a
      else (case fl a 1 of
              None \<Rightarrow> PosInfinity
            | Some (m, x) \<Rightarrow> Finite (m * 2 ^ nat x)))"

fun negate :: "number \<Rightarrow> number" where
  "negate NaN = NaN"
| "negate PosInfinity = NegInfinity"
| "negate NegInfinity = PosInfinity"
| "negate (Finite n) = Finite (- n)"

text \<open>\<^verbatim>\<open>a / b\<close> for an integer \<open>a\<close> and a positive integer \<open>b\<close>, and \<^verbatim>\<open>v * 100\<close>.\<close>

definition divide_double :: "int \<Rightarrow> int \<Rightarrow> double" where
  "divide_double a b = fl_signed a b"

fun times100 :: "double \<Rightarrow> double" where
  "times100 (Infinite neg) = Infinite neg"
| "times100 (Val m x) =
     (if 0 \<le> x then fl_signed (100 * m * 2 ^ nat x) 1 else fl_signed (100 * m) (2 ^ nat (- x)))"

text \<open>\<^verbatim>\<open>Math.round\<close>: the greatest integer not above \<open>v + 1 / 2\<close>, taken exactly.\<close>

fun math_round :: "double \<Rightarrow> number" where
  "math_round (Infinite neg) = (if neg then NegInfinity else PosInfinity)"
| "math_round (Val m x) =
     Finite (if 0 \<le> x then m * 2 ^ nat x
             else (2 * m + 2 ^ nat (- x)) div 2 ^ (nat (- x) + 1))"

section \<open>Lenient integers\<close>

text \<open>
  \<^verbatim>\<open>parseInt(v, 10)\<close> on a string: leading white space is skipped, one sign is read,
  and the longest run of decimal digits is read as an integer, which is rounded to the
  nearest double (SpiderMonkey, the engine of GNOME Shell, takes all the digits into
  account); no digit gives \<^verbatim>\<open>NaN\<close>.
\<close>

definition white_space :: "char \<Rightarrow> bool" where
  "white_space c = (let n = of_char c :: nat in (9 \<le> n \<and> n \<le> 13) \<or> n = 32 \<or> n = 160)"

definition is_digit :: "char \<Rightarrow> bool" where
  "is_digit c = (let n = of_char c :: nat in 48 \<le> n \<and> n \<le> 57)"

definition digit_val :: "char \<Rightarrow> int" where
  "digit_val c = int (of_char c) - 48"

fun digits_val :: "int \<Rightarrow> string \<Rightarrow> int" where
  "digits_val acc [] = acc"
| "digits_val acc (c # cs) = digits_val (acc * 10 + digit_val c) cs"

definition parse_unsigned :: "string \<Rightarrow> number" where
  "parse_unsigned s =
     (let ds = takeWhile is_digit s
      in if ds = [] then NaN else round_double (digits_val 0 ds))"

definition parseInt_str :: "string \<Rightarrow> number" where
  "parseInt_str s =
     (case dropWhile white_space s of
        [] \<Rightarrow> NaN
      | c # cs \<Rightarrow>
          if c = CHR ''-'' then negate (parse_unsigned cs)
          else if c = CHR ''+'' then parse_unsigned cs
          else parse_unsigned (c # cs))"

text \<open>\<^verbatim>\<open>parseInt(v, 10)\<close>: the argument is converted to a string first.\<close>

definition parseInt :: "jsval \<Rightarrow> exn + number" where
  "parseInt v = (case toStr v of Inl e \<Rightarrow> Inl e | Inr s \<Rightarrow> Inr (parseInt_str s))"

text \<open>\<^verbatim>\<open>_safeInt\<close> (lines 649 to 652): \<^verbatim>\<open>isFinite(n) ? n : 0\<close>.\<close>

definition safeInt :: "jsval \<Rightarrow> exn + int" where
  "safeInt v =
     (case parseInt v of
        Inl e \<Rightarrow> Inl e
      | Inr (Finite n) \<Rightarrow> Inr n
      | Inr _ \<Rightarrow> Inr 0)"

section \<open>The usage normalizer\<close>

text \<open>
  The local variables of \<^verbatim>\<open>_applyUsageData\<close> (lines 434 to 436) that the three
  schemas fill: the canonical reading of the two quota windows. The counts are integers:
  they are values of \<^verbatim>\<open>_safeInt\<close> or, in Schema A, the difference of two of them,
  which is taken exactly, as the doubles take it while it stays within \<open>2 ^ 53\<close> in
  magnitude.
\<close>

record usage =
  sessionUsed :: int
  sessionLimit :: int
  sessionReset :: jsval
  weeklyUsed :: int
  weeklyLimit :: int
  weeklyReset :: jsval

definition init_usage :: usage where
  "init_usage =
     \<lparr>sessionUsed = 0, sessionLimit = 1, sessionReset = JNull,
      weeklyUsed = 0, weeklyLimit = 1, weeklyReset = JNull\<rparr>"

text \<open>A \<^verbatim>\<open>for ... of\<close> loop whose body may throw: the first exception ends it.\<close>

fun forEach :: "('a \<Rightarrow> 's \<Rightarrow> exn + 's) \<Rightarrow> 'a list \<Rightarrow> 's \<Rightarrow> exn + 's" where
  "forEach f [] u = Inr u"
| "forEach f (x # xs) u = (case f x u of Inl e \<Rightarrow> Inl e | Inr u' \<Rightarrow> forEach f xs u')"

text \<open>\<^verbatim>\<open>Object.values\<close> and \<^verbatim>\<open>Object.entries\<close> of a value that is not nullish.\<close>

fun objectEntries :: "jsval \<Rightarrow> (string \<times> jsval) list" where
  "objectEntries (JObj kvs) = kvs"
| "objectEntries (JArr xs) = zip (map show_nat [0..<length xs]) xs"
| "objectEntries (JStr s) = zip (map show_nat [0..<length s]) (map (\<lambda>c. JStr [c]) s)"
| "objectEntries _ = []"

definition objectValues :: "jsval \<Rightarrow> jsval list" where
  "objectValues v = map snd (objectEntries v)"

subsection \<open>Schema A (lines 441 to 457)\<close>

definition typeA :: "jsval \<Rightarrow> jsval" where
  "typeA entry = orElse (getp entry ''type'') (JStr [])"

definition remA :: "jsval \<Rightarrow> exn + int" where
  "remA entry = safeInt (orElse (getp entry ''remaining'') (getp entry ''tokens_remaining''))"

definition totA :: "jsval \<Rightarrow> exn + int" where
  "totA entry =
     safeInt (orElse (orElse (getp entry ''total'') (getp entry ''tokens_total''))
                (getp entry ''limit''))"

definition resetA :: "jsval \<Rightarrow> jsval" where
  "resetA entry =
     orElse (orElse (orElse (getp entry ''resetsAt'') (getp entry ''reset_at''))
               (getp entry ''resets_at'')) JNull"

definition schemaA_entry :: "jsval \<Rightarrow> usage \<Rightarrow> exn + usage" where
  "schemaA_entry entry u =
     (case remA entry of
        Inl e \<Rightarrow> Inl e
      | Inr rem \<Rightarrow>
     (case totA entry of
        Inl e \<Rightarrow> Inl e
      | Inr tot \<Rightarrow>
     (let used = tot - rem; reset = resetA entry
      in case toStr (typeA entry) of
           Inl e \<Rightarrow> Inl e
         | Inr t \<Rightarrow>
             if test_sessionA t
             then Inr (u\<lparr>sessionUsed := used, sessionLimit := tot, sessionReset := reset\<rparr>)
             else if test_week t
             then Inr (u\<lparr>weeklyUsed := used, weeklyLimit := tot, weeklyReset := reset\<rparr>)
             else Inr u)))"

definition schemaA :: "jsval \<Rightarrow> usage \<Rightarrow> exn + usage" where
  "schemaA data u =
     (let rl = getp data ''rate_limit_status''
      in if truthy rl
         then forEach schemaA_entry (case rl of JArr xs \<Rightarrow> xs | _ \<Rightarrow> objectValues rl) u
         else Inr u)"

subsection \<open>Schema B (lines 459 to 471)\<close>

definition typeB :: "jsval \<Rightarrow> jsval" where
  "typeB q =
     orElse (orElse (orElse (getp q ''window'') (getp q ''type'')) (getp q ''period'')) (JStr [])"

definition usedB :: "jsval \<Rightarrow> exn + int" where
  "usedB q = safeInt (orElse (getp q ''used'') (getp q ''tokens_used''))"

definition limitB :: "jsval \<Rightarrow> exn + int" where
  "limitB q =
     safeInt (orElse (orElse (getp q ''limit'') (getp q ''tokens_limit'')) (getp q ''total''))"

definition resetB :: "jsval \<Rightarrow> jsval" where
  "resetB q = orElse (orElse (getp q ''reset_at'') (getp q ''resetsAt'')) JNull"

definition schemaB_entry :: "jsval \<Rightarrow> usage \<Rightarrow> exn + usage" where
  "schemaB_entry q u =
     (case usedB q of
        Inl e \<Rightarrow> Inl e
      | Inr used \<Rightarrow>
     (case limitB q of
        Inl e \<Rightarrow> Inl e
      | Inr limit \<Rightarrow>
     (let reset = resetB q
      in case toStr (typeB q) of
           Inl e \<Rightarrow> Inl e
         | Inr t \<Rightarrow>
             if test_sessionB t
             then Inr (u\<lparr>sessionUsed := used, sessionLimit := limit, sessionReset := reset\<rparr>)
             else if test_week t
             then Inr (u\<lparr>weeklyUsed := used, weeklyLimit := limit, weeklyReset := reset\<rparr>)
             else Inr u)))"

definition quotasOf :: "jsval \<Rightarrow> jsval" where
  "quotasOf data =
     orElse (orElse (orElse (getp data ''quotas'') (getp data ''limits''))
               (getp data ''usage_limits'')) (JArr [])"

definition schemaB :: "jsval \<Rightarrow> usage \<Rightarrow> exn + usage" where
  "schemaB data u =
     forEach schemaB_entry (case quotasOf data of JArr xs \<Rightarrow> xs | _ \<Rightarrow> []) u"

subsection \<open>Schema C (lines 473 to 485)\<close>

definition setIf :: "bool \<Rightarrow> jsval \<Rightarrow> (int \<Rightarrow> usage \<Rightarrow> usage) \<Rightarrow> usage \<Rightarrow> exn + usage" where
  "setIf c v upd u =
     (if c then (case safeInt v of Inl e \<Rightarrow> Inl e | Inr n \<Rightarrow> Inr (upd n u)) else Inr u)"

definition schemaC_entry :: "string \<times> jsval \<Rightarrow> usage \<Rightarrow> exn + usage" where
  "schemaC_entry kv u =
     (let k = fst kv; v = snd kv
      in case setIf (test_5hour k \<and> test_used k) v (\<lambda>n u. u\<lparr>sessionUsed := n\<rparr>) u of
           Inl e \<Rightarrow> Inl e
         | Inr u1 \<Rightarrow>
        (case setIf (test_5hour k \<and> test_limit_total k) v (\<lambda>n u. u\<lparr>sessionLimit := n\<rparr>) u1 of
           Inl e \<Rightarrow> Inl e
         | Inr u2 \<Rightarrow>
        (case setIf (test_week k \<and> test_used k) v (\<lambda>n u. u\<lparr>weeklyUsed := n\<rparr>) u2 of
           Inl e \<Rightarrow> Inl e
         | Inr u3 \<Rightarrow>
             setIf (test_week k \<and> test_limit_total k) v (\<lambda>n u. u\<lparr>weeklyLimit := n\<rparr>) u3)))"

definition schemaC :: "jsval \<Rightarrow> usage \<Rightarrow> exn + usage" where
  "schemaC data u =
     (if sessionLimit u \<le> 1
      then forEach schemaC_entry (objectEntries (orElse data (JObj []))) u
      else Inr u)"

subsection \<open>The three schemas in the order of the code\<close>

definition schemaAB :: "jsval \<Rightarrow> exn + usage" where
  "schemaAB data =
     (case schemaA data init_usage of Inl e \<Rightarrow> Inl e | Inr u \<Rightarrow> schemaB data u)"

definition normalize :: "jsval \<Rightarrow> exn + usage" where
  "normalize data = (case schemaAB data of Inl e \<Rightarrow> Inl e | Inr u \<Rightarrow> schemaC data u)"

text \<open>
  The percentage of the menu (lines 528 and 529):
  \<^verbatim>\<open>limit > 0 ? Math.round(used / limit * 100) : 0\<close>, the quotient and the product
  each rounded to a double.
\<close>

definition percent :: "int \<Rightarrow> int \<Rightarrow> number" where
  "percent used limit =
     (if limit > 0 then math_round (times100 (divide_double used limit)) else Finite 0)"

section \<open>The identity resolver\<close>

text \<open>The extraction of the organization id in \<^verbatim>\<open>_fetchAccount\<close> (lines 373 to 386).\<close>

definition firstOrgId :: "jsval \<Rightarrow> jsval" where
  "firstOrgId data =
     (let memberships = orElse (orElse (getp data ''memberships'')
                                  (getp (getp data ''account'') ''memberships'')) (JArr []);
          org = orElse (getp (get0 memberships) ''organization'')
                  (getp (get0 memberships) ''workspace'')
      in orElse (orElse (orElse (getp org ''uuid'') (getp org ''id'')) (getp data ''id'')) JNull)"

definition resolveOrgId :: "jsval \<Rightarrow> jsval" where
  "resolveOrgId data =
     (let orgId = firstOrgId data
      in if \<not> truthy orgId
         then orElse (orElse (getp data ''organization_uuid'')
                        (getp (getp data ''default_organization'') ''uuid'')) JNull
         else orgId)"

section \<open>The indicator and its poll cycle\<close>

text \<open>
  The GSettings keys the indicator reads and writes, kept as given; an absent cookie is
  \<open>None\<close>.
\<close>

record gsettings =
  session_cookie :: "string option"
  show_numbers :: bool
  poll_interval_idle :: int
  poll_interval_active :: int
  last_session_used :: int
  last_weekly_used :: int

text \<open>
  The fields of \<^verbatim>\<open>ClaudeTokenIndicator\<close> that the poll cycle touches. \<open>timer\<close> is the
  delay in seconds of the pending timeout; \<open>statusText\<close>, \<open>details\<close> and the two
  percentages are what the menu shows; \<open>requests\<close> lists the GET requests sent, each
  with its URL and its \<^verbatim>\<open>Cookie\<close> header. The bars, the icon, the tooltip and the
  formatted numbers and dates are left out: they read the snapshot and change nothing the
  poll cycle depends on. The settings store and the HTTP library accept every value.
\<close>

record indicator =
  settings :: gsettings
  orgId :: jsval
  lastSessionUsed :: int
  lastWeeklyUsed :: int
  timer :: "int option"
  sessionResetTime :: jsval
  weeklyResetTime :: jsval
  statusText :: string
  details :: "usage option"
  sessionPct :: number
  weeklyPct :: number
  requests :: "(string \<times> string) list"

text \<open>What the HTTP session hands to the callback of \<^verbatim>\<open>_get\<close>: a transport failure
  with its message, or a status with the body as \<^verbatim>\<open>JSON.parse\<close> reads it (\<open>None\<close>
  when it throws).\<close>

datatype response = TransportError string | Answered nat "jsval option"

datatype fetch_error =
    NoCredential
  | AuthFailed
  | HttpError nat
  | InvalidResponse
  | NetworkError string

text \<open>How a poll cycle ends. \<open>Thrown\<close> is an exception that leaves the timer callback.\<close>

datatype outcome =
    Success
  | Failed fetch_error
  | OrganizationNotFound
  | ParseError exn
  | Thrown exn

text \<open>
  The texts passed to \<^verbatim>\<open>_setStatus\<close>. The dash of the authentication text and the
  ellipsis of \<^verbatim>\<open>Connecting\<close> are written in ASCII; the text of a \<^verbatim>\<open>TypeError\<close> is
  the engine's.
\<close>

fun message :: "fetch_error \<Rightarrow> string" where
  "message NoCredential = ''No session cookie configured. Open Settings to add one.''"
| "message AuthFailed = ''Authentication failed - check your session cookie.''"
| "message (HttpError status) = ''HTTP '' @ show_nat status"
| "message InvalidResponse = ''Invalid JSON from server''"
| "message (NetworkError m) = ''Network error: '' @ m"

fun exn_message :: "exn \<Rightarrow> string" where
  "exn_message TypeError = ''Cannot convert object to primitive value''"

definition CLAUDE_BASE :: string where
  "CLAUDE_BASE = ''https://claude.ai/api''"

definition ACCOUNT_ENDPOINT :: string where
  "ACCOUNT_ENDPOINT = CLAUDE_BASE @ ''/auth/current_account''"

definition scheduleNextPoll :: "int \<Rightarrow> indicator \<Rightarrow> indicator" where
  "scheduleNextPoll delaySec st = st\<lparr>timer := Some delaySec\<rparr>"

definition setStatus :: "string \<Rightarrow> indicator \<Rightarrow> indicator" where
  "setStatus msg st = st\<lparr>statusText := msg, details := None\<rparr>"

subsection \<open>HTTP helpers (lines 305 to 353)\<close>

definition trim :: "string \<Rightarrow> string" where
  "trim s = rev (dropWhile white_space (rev (dropWhile white_space s)))"

definition startsWith :: "string \<Rightarrow> string \<Rightarrow> bool" where
  "startsWith s p = (take (length p) s = p)"

definition cookieHeader :: "gsettings \<Rightarrow> string option" where
  "cookieHeader g =
     (let key = trim (case session_cookie g of None \<Rightarrow> [] | Some s \<Rightarrow> s)
      in if key = [] then None
         else Some (if startsWith key ''sessionKey='' then key else ''sessionKey='' @ key))"

definition get :: "(string \<Rightarrow> response) \<Rightarrow> string \<Rightarrow> indicator
    \<Rightarrow> (fetch_error + jsval) \<times> indicator" where
  "get server url st =
     (case cookieHeader (settings st) of
        None \<Rightarrow> (Inl NoCredential, st)
      | Some cookie \<Rightarrow>
          (let st1 = st\<lparr>requests := requests st @ [(url, cookie)]\<rparr>
           in case server url of
                TransportError m \<Rightarrow> (Inl (NetworkError m), st1)
              | Answered status body \<Rightarrow>
                  if status = 401 \<or> status = 403 then (Inl AuthFailed, st1)
                  else if status < 200 \<or> status \<ge> 300 then (Inl (HttpError status), st1)
                  else (case body of
                          None \<Rightarrow> (Inl InvalidResponse, st1)
                        | Some json \<Rightarrow> (Inr json, st1))))"

subsection \<open>\<^verbatim>\<open>_applyUsageData\<close> (lines 431 to 557)\<close>

text \<open>
  A reset time that is truthy is formatted into the menu. \<^verbatim>\<open>_fmtDate\<close> catches what
  \<^verbatim>\<open>new Date\<close> throws and returns its argument, which the template literal then
  converts to a string: the text depends on the locale, the exception does not.
\<close>

definition showReset :: "jsval \<Rightarrow> exn option" where
  "showReset r =
     (if truthy r then (case toStr r of Inl e \<Rightarrow> Some e | Inr _ \<Rightarrow> None) else None)"

text \<open>
  The result is the exception that leaves the function, if any, and the indicator as
  the function leaves it: what was assigned before a throw stays assigned.
\<close>

definition applyUsageData :: "jsval \<Rightarrow> indicator \<Rightarrow> exn option \<times> indicator" where
  "applyUsageData data st =
     (case normalize data of
        Inl e \<Rightarrow> (Some e, st)
      | Inr u \<Rightarrow>
          (let tokensMoved =
                 (sessionUsed u > lastSessionUsed st \<or> weeklyUsed u > lastWeeklyUsed st);
               idleInterval = poll_interval_idle (settings st);
               activeInterval = poll_interval_active (settings st);
               nextInterval = (if tokensMoved then activeInterval else idleInterval);
               st1 = st\<lparr>lastSessionUsed := sessionUsed u, lastWeeklyUsed := weeklyUsed u,
                      settings := (settings st)\<lparr>last_session_used := sessionUsed u,
                                                last_weekly_used := weeklyUsed u\<rparr>\<rparr>;
               st2 = st1\<lparr>statusText := ''Claude token usage'', details := Some u,
                       sessionPct := percent (sessionUsed u) (sessionLimit u),
                       weeklyPct := percent (weeklyUsed u) (weeklyLimit u),
                       sessionResetTime := sessionReset u, weeklyResetTime := weeklyReset u\<rparr>
           in case showReset (sessionReset u) of
                Some e \<Rightarrow> (Some e, st2)
              | None \<Rightarrow>
                  (case showReset (weeklyReset u) of
                     Some e \<Rightarrow> (Some e, st2)
                   | None \<Rightarrow> (None, scheduleNextPoll nextInterval st2))))"

subsection \<open>Data fetching (lines 357 to 417)\<close>

definition parseErrorText :: "exn \<Rightarrow> string" where
  "parseErrorText e = ''Parse error: '' @ exn_message e"

text \<open>The template literal of line 402, with the organization id already a string.\<close>

definition usageUrl :: "string \<Rightarrow> string" where
  "usageUrl org = CLAUDE_BASE @ ''/organizations/'' @ org @ ''/rate_limit_status''"

definition fetchUsage :: "(string \<Rightarrow> response) \<Rightarrow> indicator \<Rightarrow> outcome \<times> indicator" where
  "fetchUsage server st =
     (case toStr (orgId st) of
        Inl e \<Rightarrow> (Thrown e, st)
      | Inr org \<Rightarrow>
          (let url = usageUrl org
           in case get server url st of
                (Inl err, st1) \<Rightarrow> (Failed err, scheduleNextPoll 60 (setStatus (message err) st1))
              | (Inr data, st1) \<Rightarrow>
                  (case applyUsageData data st1 of
                     (Some e, st2) \<Rightarrow>
                       (ParseError e, scheduleNextPoll 60 (setStatus (parseErrorText e) st2))
                   | (None, st2) \<Rightarrow> (Success, st2))))"

definition fetchAccount :: "(string \<Rightarrow> response) \<Rightarrow> indicator \<Rightarrow> outcome \<times> indicator" where
  "fetchAccount server st =
     (case get server ACCOUNT_ENDPOINT (setStatus ''Connecting...'' st) of
        (Inl err, st1) \<Rightarrow> (Failed err, scheduleNextPoll 60 (setStatus (message err) st1))
      | (Inr data, st1) \<Rightarrow>
          (let st2 = st1\<lparr>orgId := resolveOrgId data\<rparr>
           in if \<not> truthy (orgId st2)
              then (OrganizationNotFound,
                    scheduleNextPoll 60 (setStatus ''Could not resolve organization ID.'' st2))
              else (case fetchUsage server st2 of
                      (Thrown e, st3) \<Rightarrow>
                        (ParseError e, scheduleNextPoll 60 (setStatus (parseErrorText e) st3))
                    | r \<Rightarrow> r)))"

definition fetchData :: "(string \<Rightarrow> response) \<Rightarrow> indicator \<Rightarrow> outcome \<times> indicator" where
  "fetchData server st =
     (if \<not> truthy (orgId st) then fetchAccount server st else fetchUsage server st)"

text \<open>The timeout of \<^verbatim>\<open>_scheduleNextPoll\<close> fires (lines 289 to 293).\<close>

definition timerFired :: "(string \<Rightarrow> response) \<Rightarrow> indicator \<Rightarrow> outcome \<times> indicator" where
  "timerFired server st = fetchData server (st\<lparr>timer := None\<rparr>)"

section \<open>Notions used in the statements\<close>

text \<open>
  No object inside the value has an own property \<^verbatim>\<open>toString\<close>: the condition under
  which no conversion to a string can throw.
\<close>

fun no_toString :: "jsval \<Rightarrow> bool"
  and no_toString_list :: "jsval list \<Rightarrow> bool"
  and no_toString_props :: "(string \<times> jsval) list \<Rightarrow> bool" where
  "no_toString (JArr xs) = no_toString_list xs"
| "no_toString (JObj kvs) = no_toString_props kvs"
| "no_toString JUndefined = True"
| "no_toString JNull = True"
| "no_toString (JBool b) = True"
| "no_toString (JNum s) = True"
| "no_toString (JStr s) = True"
| "no_toString_list [] = True"
| "no_toString_list (x # xs) = (no_toString x \<and> no_toString_list xs)"
| "no_toString_props [] = True"
| "no_toString_props ((k, v) # kvs) =
     (k \<noteq> ''toString'' \<and> no_toString v \<and> no_toString_props kvs)"

text \<open>
  A payload in which no schema finds anything to read: no truthy
  \<^verbatim>\<open>rate_limit_status\<close>, no non-empty array of quotas, and no top-level key that
  matches the 5-hour or the week pattern.
\<close>

definition unrecognized :: "jsval \<Rightarrow> bool" where
  "unrecognized data =
     (\<not> truthy (getp data ''rate_limit_status'')
      \<and> (case quotasOf data of JArr xs \<Rightarrow> xs = [] | _ \<Rightarrow> True)
      \<and> list_all (\<lambda>kv. \<not> test_5hour (fst kv) \<and> \<not> test_week (fst kv))
           (objectEntries (orElse data (JObj []))))"

text \<open>
  The entries the loops of Schema A and Schema B run over, and the payloads in which
  nothing is assigned to the weekly window, or to the session window: no entry of
  Schema A or B has a window kind that selects the window, and no top-level key selects
  one of its fields in Schema C.
\<close>

definition weekly_default :: "usage \<Rightarrow> bool" where
  "weekly_default u = (weeklyUsed u = 0 \<and> weeklyLimit u = 1 \<and> weeklyReset u = JNull)"

definition session_default :: "usage \<Rightarrow> bool" where
  "session_default u = (sessionUsed u = 0 \<and> sessionLimit u = 1 \<and> sessionReset u = JNull)"

definition entriesA :: "jsval \<Rightarrow> jsval list" where
  "entriesA data =
     (let rl = getp data ''rate_limit_status''
      in if truthy rl then (case rl of JArr xs \<Rightarrow> xs | _ \<Rightarrow> objectValues rl) else [])"

definition entriesB :: "jsval \<Rightarrow> jsval list" where
  "entriesB data = (case quotasOf data of JArr xs \<Rightarrow> xs | _ \<Rightarrow> [])"

definition kind_matches :: "(string \<Rightarrow> bool) \<Rightarrow> jsval \<Rightarrow> bool" where
  "kind_matches test v = (case toStr v of Inl e \<Rightarrow> False | Inr t \<Rightarrow> test t)"

definition weekly_unmatched :: "jsval \<Rightarrow> bool" where
  "weekly_unmatched data =
     (list_all (\<lambda>e. \<not> kind_matches (\<lambda>t. \<not> test_sessionA t \<and> test_week t) (typeA e))
        (entriesA data)
      \<and> list_all (\<lambda>q. \<not> kind_matches (\<lambda>t. \<not> test_sessionB t \<and> test_week t) (typeB q))
          (entriesB data)
      \<and> list_all (\<lambda>kv. \<not> (test_week (fst kv)
                              \<and> (test_used (fst kv) \<or> test_limit_total (fst kv))))
          (objectEntries (orElse data (JObj []))))"

definition session_unmatched :: "jsval \<Rightarrow> bool" where
  "session_unmatched data =
     (list_all (\<lambda>e. \<not> kind_matches test_sessionA (typeA e)) (entriesA data)
      \<and> list_all (\<lambda>q. \<not> kind_matches test_sessionB (typeB q)) (entriesB data)
      \<and> list_all (\<lambda>kv. \<not> (test_5hour (fst kv)
                              \<and> (test_used (fst kv) \<or> test_limit_total (fst kv))))
          (objectEntries (orElse data (JObj []))))"

text \<open>
  The identity resolver as section 4.2 of the specification words it: five locations
  tried in order, the first that is not null wins. This definition follows the
  specification, not the code; \<open>resolveOrgId\<close> is the code.
\<close>

definition orgIdOf :: "jsval \<Rightarrow> jsval" where
  "orgIdOf memberships =
     (let org = orElse (getp (get0 memberships) ''organization'')
                  (getp (get0 memberships) ''workspace'')
      in orElse (getp org ''uuid'') (getp org ''id''))"

definition candidates :: "jsval \<Rightarrow> jsval list" where
  "candidates data =
     [orgIdOf (getp data ''memberships''),
      orgIdOf (getp (getp data ''account'') ''memberships''),
      getp data ''id'',
      getp data ''organization_uuid'',
      getp (getp data ''default_organization'') ''uuid'']"

fun firstNonNull :: "jsval list \<Rightarrow> jsval" where
  "firstNonNull [] = JNull"
| "firstNonNull (x # xs) = (if nullish x then firstNonNull xs else x)"

definition spec_resolveOrgId :: "jsval \<Rightarrow> jsval" where
  "spec_resolveOrgId data = firstNonNull (candidates data)"

text \<open>The payloads of the scenarios of section 8 of the specification.\<close>

definition scenario_entry :: jsval where
  "scenario_entry =
     JObj [(''type'', JStr ''window5Hour''), (''remaining'', num 152000),
           (''total'', num 200000), (''resetsAt'', JStr ''2024-01-01T00:00:00Z'')]"

definition scenario_usage :: jsval where
  "scenario_usage = JObj [(''rate_limit_status'', JObj [(''a'', scenario_entry)])]"

definition scenario_account :: jsval where
  "scenario_account =
     JObj [(''memberships'', JArr [JObj [(''organization'', JObj [(''uuid'', JStr ''org-1'')])]])]"


definition both_entry :: jsval where
  "both_entry =
     JObj [(''type'', JStr ''weekly_window''), (''remaining'', num 70), (''total'', num 100)]"

definition weekly_before :: usage where
  "weekly_before =
     \<lparr>sessionUsed = 0, sessionLimit = 1, sessionReset = JNull,
      weeklyUsed = 7, weeklyLimit = 70, weeklyReset = JStr ''kept''\<rparr>"









definition settings0 :: gsettings where
  "settings0 =
     \<lparr>session_cookie = Some ''sk-ant-sid01-abc'', show_numbers = True,
      poll_interval_idle = 120, poll_interval_active = 5,
      last_session_used = 1000, last_weekly_used = 7000\<rparr>"

definition indicator0 :: indicator where
  "indicator0 =
     \<lparr>settings = settings0, orgId = JStr ''org-1'', lastSessionUsed = 1000,
      lastWeeklyUsed = 7000, timer = None, sessionResetTime = JNull,
      weeklyResetTime = JNull, statusText = [], details = None,
      sessionPct = Finite 0, weeklyPct = Finite 0, requests = []\<rparr>"

definition throwing_payload :: jsval where
  "throwing_payload =
     JObj [(''rate_limit_status'',
              JObj [(''a'', JObj [(''type'', JObj [(''toString'', num 1)]),
                                  (''remaining'', num 1), (''total'', num 10)])])]"

definition unknown_payload :: jsval where
  "unknown_payload = JObj [(''plan'', JStr ''pro''), (''messages'', JArr [num 1, JNull])]"

text \<open>A server that answers every request with status 200 and the given body.\<close>

definition server_of :: "jsval \<Rightarrow> string \<Rightarrow> response" where
  "server_of data url = Answered 200 (Some data)"

text \<open>Account payloads on which the code and the wording of the specification differ.\<close>

definition shadowed_account :: jsval where
  "shadowed_account =
     JObj [(''memberships'', JArr []),
           (''account'',
              JObj [(''memberships'',
                       JArr [JObj [(''organization'', JObj [(''uuid'', JStr ''org-2'')])]])])]"

definition falsy_account :: jsval where
  "falsy_account = JObj [(''id'', JStr []), (''organization_uuid'', JStr ''org-9'')]"

text \<open>
  Two usage payloads for an indicator that remembers 1000 session tokens and 7000 weekly
  tokens: the session count rises to 5000, or nothing changes.
\<close>

definition quota_payload :: "int \<Rightarrow> int \<Rightarrow> jsval" where
  "quota_payload s w =
     JObj [(''quotas'',
              JArr [JObj [(''window'', JStr ''session''), (''used'', num s),
                          (''limit'', num 200000)],
                    JObj [(''window'', JStr ''weekly''), (''used'', num w),
                          (''limit'', num 1000000)]])]"

definition rise_payload :: jsval where
  "rise_payload = quota_payload 5000 7000"

definition same_payload :: jsval where
  "same_payload = quota_payload 1000 7000"

text \<open>A server that answers every request with status 403, and indicators without
  a credential.\<close>

definition server_403 :: "string \<Rightarrow> response" where
  "server_403 url = Answered 403 None"

definition indicator_blank :: indicator where
  "indicator_blank = indicator0\<lparr>settings := settings0\<lparr>session_cookie := Some ''  ''\<rparr>\<rparr>"

definition indicator_absent :: indicator where
  "indicator_absent = indicator0\<lparr>settings := settings0\<lparr>session_cookie := None\<rparr>\<rparr>"


definition weekly_only_payload :: jsval where
  "weekly_only_payload =
     JObj [(''quotas'',
              JArr [JObj [(''window'', JStr ''weekly''), (''used'', num 7),
                          (''limit'', num 70)]])]"

text \<open>An indicator that has cached an organization id with no string form.\<close>

definition indicator_unprintable :: indicator where
  "indicator_unprintable = indicator0\<lparr>orgId := JObj [(''toString'', num 1)]\<rparr>"

section \<open>Properties of the lenient integer parser\<close>

lemma digit_char_is_digit: "d < 10 \<Longrightarrow> is_digit (digit_char d)"
  by (simp add: is_digit_def digit_char_def)

lemma digit_val_digit_char: "d < 10 \<Longrightarrow> digit_val (digit_char d) = int d"
  by (simp add: digit_val_def digit_char_def)

lemma show_nat_digits: "c \<in> set (show_nat n) \<Longrightarrow> is_digit c"
proof (induction n rule: show_nat.induct)
  case (1 n)
  show ?case
  proof (cases "n < 10")
    case True
    with 1(2) show ?thesis by (simp add: show_nat.simps [of n] digit_char_is_digit)
  next
    case False
    with 1 show ?thesis by (auto simp add: show_nat.simps [of n] digit_char_is_digit)
  qed
qed

lemma show_nat_nonempty: "show_nat n \<noteq> []"
  by (simp add: show_nat.simps [of n])

lemma digits_val_append: "digits_val acc (xs @ ys) = digits_val (digits_val acc xs) ys"
  by (induction xs arbitrary: acc) simp_all

lemma digits_val_show_nat: "digits_val 0 (show_nat n) = int n"
proof (induction n rule: show_nat.induct)
  case (1 n)
  show ?case
  proof (cases "n < 10")
    case True
    then show ?thesis by (simp add: show_nat.simps [of n] digit_val_digit_char)
  next
    case False
    with 1 have "digits_val 0 (show_nat (n div 10)) = int (n div 10)" by simp
    moreover have "int (n div 10) * 10 + int (n mod 10) = int n"
    proof -
      have "n div 10 * 10 + n mod 10 = n" by simp
      then have "int (n div 10 * 10 + n mod 10) = int n" by (rule arg_cong)
      then show ?thesis by (simp only: of_nat_add of_nat_mult of_nat_numeral)
    qed
    ultimately show ?thesis using False
      by (simp add: show_nat.simps [of n] digits_val_append digit_val_digit_char)
  qed
qed

lemma parse_unsigned_show_nat: "parse_unsigned (show_nat n) = round_double (int n)"
proof -
  have tw: "takeWhile is_digit (show_nat n) = show_nat n"
    by (simp add: show_nat_digits)
  show ?thesis
    unfolding parse_unsigned_def Let_def tw
    by (simp add: show_nat_nonempty digits_val_show_nat)
qed

lemma is_digit_not_special:
  "is_digit c \<Longrightarrow> \<not> white_space c \<and> c \<noteq> CHR ''-'' \<and> c \<noteq> CHR ''+''"
  by (auto simp add: is_digit_def white_space_def Let_def)

lemma parseInt_str_show_nat: "parseInt_str (show_nat n) = round_double (int n)"
proof -
  obtain c cs where cs: "show_nat n = c # cs"
    using show_nat_nonempty [of n] by (cases "show_nat n") auto
  then have "is_digit c" using show_nat_digits [of c n] by simp
  then have "\<not> white_space c" "c \<noteq> CHR ''-''" "c \<noteq> CHR ''+''"
    using is_digit_not_special by blast+
  with cs parse_unsigned_show_nat [of n] show ?thesis
    by (simp add: parseInt_str_def)
qed

lemma parseInt_str_show_int:
  "parseInt_str (show_int i) =
     (if i < 0 then negate (round_double (- i)) else round_double i)"
proof (cases "i < 0")
  case True
  have "\<not> white_space CHR ''-''" by (simp add: white_space_def)
  with True parse_unsigned_show_nat [of "nat (- i)"] show ?thesis
    by (simp add: parseInt_str_def show_int_def)
next
  case False
  with parseInt_str_show_nat [of "nat i"] show ?thesis by (simp add: show_int_def)
qed

lemma round_double_safe: "a \<le> 9007199254740992 \<Longrightarrow> round_double a = Finite a"
  by (simp add: round_double_def)

lemma parseInt_str_safe:
  "\<bar>n\<bar> \<le> 9007199254740992 \<Longrightarrow> parseInt_str (show_int n) = Finite n"
  by (simp add: parseInt_str_show_int round_double_safe)

lemma nullish_num [simp]: "\<not> nullish (num n)"
  by (simp add: num_def)

lemma getp_num [simp]: "getp (num n) k = JUndefined"
  by (simp add: num_def)

lemma toStr_num [simp]: "toStr (num n) = Inr (show_int n)"
  by (simp add: num_def)

lemma no_toString_num [simp]: "no_toString (num n)"
  by (simp add: num_def)

lemma safeInt_num: "\<bar>n\<bar> \<le> 9007199254740992 \<Longrightarrow> safeInt (num n) = Inr n"
  by (simp add: safeInt_def parseInt_def parseInt_str_safe)

lemma safeInt_NaN: "parseInt_str s = NaN \<Longrightarrow> safeInt (JStr s) = Inr 0"
  by (simp add: safeInt_def parseInt_def)

lemma safeInt_examples:
  "safeInt JNull = Inr 0 \<and> safeInt JUndefined = Inr 0 \<and> safeInt (JStr ''abc'') = Inr 0
   \<and> safeInt (JStr ''123'') = Inr 123 \<and> safeInt (JStr ''123.7'') = Inr 123"
  by code_simp

lemma bitlen_one: "bitlen 1 = 1"
  by (simp add: bitlen.simps [of 1] bitlen.simps [of 0])

lemma bitlen_nonneg: "0 \<le> bitlen n"
proof (induction n rule: bitlen.induct)
  case (1 n)
  then show ?case by (cases "n \<le> 0") (simp_all add: bitlen.simps [of n])
qed

lemma bitlen_lower: "0 < n \<Longrightarrow> 2 ^ nat (bitlen n - 1) \<le> n"
proof (induction n rule: bitlen.induct)
  case (1 n)
  show ?case
  proof (cases "n div 2 \<le> 0")
    case True
    with 1(2) have "n = 1" by presburger
    then show ?thesis by (simp add: bitlen_one)
  next
    case False
    with 1 have ih: "2 ^ nat (bitlen (n div 2) - 1) \<le> n div 2" by simp
    from False have pos: "0 < bitlen (n div 2)"
      using bitlen_nonneg [of "n div 2 div 2"] by (simp add: bitlen.simps [of "n div 2"])
    from 1(2) have "bitlen n = 1 + bitlen (n div 2)" by (simp add: bitlen.simps [of n])
    then have "nat (bitlen n - 1) = Suc (nat (bitlen (n div 2) - 1))"
      using pos by simp
    then have "(2::int) ^ nat (bitlen n - 1) = 2 * 2 ^ nat (bitlen (n div 2) - 1)"
      by simp
    also have "\<dots> \<le> 2 * (n div 2)" using ih by simp
    also have "\<dots> \<le> n" by simp
    finally show ?thesis .
  qed
qed

lemma bitlen_upper: "n < 2 ^ nat (bitlen n)"
proof (induction n rule: bitlen.induct)
  case (1 n)
  show ?case
  proof (cases "n \<le> 0")
    case True
    then show ?thesis by (simp add: bitlen.simps [of n])
  next
    case False
    with 1 have "n div 2 < 2 ^ nat (bitlen (n div 2))" by simp
    then have "n < 2 * 2 ^ nat (bitlen (n div 2))" by linarith
    moreover have "nat (1 + bitlen (n div 2)) = Suc (nat (bitlen (n div 2)))"
      using bitlen_nonneg [of "n div 2"] by simp
    ultimately show ?thesis using False by (simp add: bitlen.simps [of n])
  qed
qed

lemma nearest_even_lower: "n div d \<le> nearest_even n d"
  by (simp add: nearest_even_def Let_def)

lemma fl_overflow:
  assumes "2 ^ 1024 \<le> a"
  shows "fl a 1 = None"
proof -
  have "(0::int) < 2 ^ 1024" by (rule zero_less_power) simp
  then have pos: "0 < a" using assms by (rule less_le_trans)
  define b where "b = nat (bitlen a - 1)"
  have bpos: "0 < bitlen a"
    using pos bitlen_nonneg [of "a div 2"] by (simp add: bitlen.simps [of a])
  then have ba: "bitlen a = 1 + int b" by (simp add: b_def)
  have low: "2 ^ b \<le> a" using bitlen_lower [OF pos] by (simp add: b_def)
  have "nat (bitlen a) = Suc b" using bpos by (simp add: b_def)
  then have "a < 2 ^ Suc b" using bitlen_upper [of a] by (simp only:)
  with assms have "(2::int) ^ 1024 < 2 ^ Suc b" by (rule le_less_trans)
  then have "1024 < Suc b" by (rule power_less_imp_less_exp [rotated]) simp
  then have big: "1024 \<le> b" by simp
  define x where "x = b - 52"
  have bx: "b = 52 + x" using big by (simp add: x_def)
  have xpos: "(0::int) < 2 ^ x" by (rule zero_less_power) simp
  have "(2::int) ^ 52 * 2 ^ x = 2 ^ b" by (simp only: bx power_add)
  with low have "2 ^ 52 * 2 ^ x \<le> a" by (simp only:)
  then have "(2 ^ 52 * 2 ^ x) div 2 ^ x \<le> a div 2 ^ x" using xpos by (rule zdiv_mono1)
  moreover have "((2::int) ^ 52 * 2 ^ x) div 2 ^ x = 2 ^ 52"
  proof (rule nonzero_mult_div_cancel_right)
    show "(2::int) ^ x \<noteq> 0" using xpos by (rule less_imp_neq [THEN not_sym])
  qed
  ultimately have "2 ^ 52 \<le> a div 2 ^ x" by (simp only:)
  then have m: "2 ^ 52 \<le> nearest_even a (2 ^ x)"
    using nearest_even_lower [of a "2 ^ x"] by (rule order_trans)
  have "(2::int) ^ 1024 \<le> 2 ^ b" by (rule power_increasing) (use big in simp_all)
  also have "\<dots> = 2 ^ 52 * 2 ^ x" by (simp only: bx power_add)
  also have "\<dots> \<le> nearest_even a (2 ^ x) * 2 ^ x"
    using m xpos by (simp only: mult_le_cancel_right) simp
  finally have over: "2 ^ 1024 \<le> nearest_even a (2 ^ x) * 2 ^ x" .
  have k: "bitlen a - bitlen 1 = int b" by (simp add: ba bitlen_one)
  have xx: "max (int b - 52) (- 1074) = int x" using big by (simp add: x_def)
  have e: "(if 0 \<le> int b then 1 * 2 ^ nat (int b) \<le> a else 1 \<le> a * 2 ^ nat (- int b)) = True"
    using low by simp
  have n0: "(a = 0) = False" using pos by simp
  have m1: "(1::int) * 2 ^ nat (int x) = 2 ^ x" by simp
  show ?thesis
    unfolding fl_def Let_def k e n0 if_True if_False xx m1
    by (simp only: of_nat_0_le_iff nat_int simp_thms over if_True)
qed

lemma round_double_overflow: "2 ^ 1024 \<le> a \<Longrightarrow> round_double a = PosInfinity"
proof -
  assume a: "2 ^ 1024 \<le> a"
  have "(2::int) ^ 53 < 2 ^ 1024" by (rule power_strict_increasing) simp_all
  with a have "\<not> a \<le> 2 ^ 53" by linarith
  with a show ?thesis unfolding round_double_def by (simp only: if_False fl_overflow option.case)
qed

lemma safeInt_overflow: "2 ^ 1024 \<le> a \<Longrightarrow> safeInt (JStr (show_nat a)) = Inr 0"
proof -
  assume "2 ^ 1024 \<le> a"
  then have "int (2 ^ 1024) \<le> int a" by (simp only: of_nat_le_iff)
  then have "2 ^ 1024 \<le> int a" by (simp only: of_nat_power of_nat_numeral)
  then have "round_double (int a) = PosInfinity" by (rule round_double_overflow)
  then show ?thesis
    by (simp only: safeInt_def parseInt_def parseInt_str_show_nat toStr.simps sum.case
        number.case)
qed

lemma safeInt_rounded:
  "safeInt (JStr ''9007199254740993'') = Inr 9007199254740992
   \<and> safeInt (JNum ''1e+21'') = Inr 1 \<and> safeInt (JNum ''123.7'') = Inr 123
   \<and> safeInt (JNum ''Infinity'') = Inr 0"
  by code_simp

text \<open>
  C9: \<^verbatim>\<open>_safeInt\<close> returns 0 for \<^verbatim>\<open>null\<close>, \<^verbatim>\<open>undefined\<close>, \<^verbatim>\<open>"abc"\<close> and every
  string that \<^verbatim>\<open>parseInt\<close> reads as \<^verbatim>\<open>NaN\<close>; it returns 123 for \<^verbatim>\<open>"123"\<close>,
  \<^verbatim>\<open>123\<close> and \<^verbatim>\<open>"123.7"\<close>, and every integer up to \<open>2 ^ 53\<close> in magnitude as it
  is, given as a number or as its decimal text. What it returns is what \<^verbatim>\<open>parseInt\<close>
  reads in the text of its argument: the digits before the first other character
  (123 for the number 123.7, 1 for the number \<open>10 ^ 21\<close>, which prints as \<^verbatim>\<open>1e+21\<close>),
  rounded to a double, and 0 when that is infinite, from \<open>2 ^ 1024\<close> on.
\<close>

theorem safeInt_lenient:
  "safeInt JNull = Inr 0 \<and> safeInt JUndefined = Inr 0 \<and> safeInt (JStr ''abc'') = Inr 0
   \<and> (\<forall>s. parseInt_str s = NaN \<longrightarrow> safeInt (JStr s) = Inr 0)
   \<and> safeInt (JStr ''123'') = Inr 123 \<and> safeInt (num 123) = Inr 123
   \<and> safeInt (JStr ''123.7'') = Inr 123
   \<and> (\<forall>n. \<bar>n\<bar> \<le> 9007199254740992
        \<longrightarrow> safeInt (num n) = Inr n \<and> safeInt (JStr (show_int n)) = Inr n)
   \<and> safeInt (JNum ''123.7'') = Inr 123 \<and> safeInt (JNum ''1e+21'') = Inr 1
   \<and> safeInt (JStr ''9007199254740993'') = Inr 9007199254740992
   \<and> (\<forall>a. 2 ^ 1024 \<le> a \<longrightarrow> safeInt (JStr (show_nat a)) = Inr 0)"
proof -
  have "safeInt (JStr (show_int n)) = Inr n" if "\<bar>n\<bar> \<le> 9007199254740992" for n
    using that by (simp add: safeInt_def parseInt_def parseInt_str_safe)
  moreover have "safeInt (num 123) = Inr 123" by (simp add: safeInt_num)
  ultimately show ?thesis
    using safeInt_examples safeInt_rounded
    by (simp add: safeInt_num safeInt_NaN safeInt_overflow)
qed

theorem safeInt_lenient_witness:
  "parseInt_str ''tokens: 12'' = NaN \<and> safeInt (JStr ''tokens: 12'') = Inr 0
   \<and> \<bar>- 152000\<bar> \<le> (9007199254740992::int) \<and> safeInt (num (- 152000)) = Inr (- 152000)
   \<and> safeInt (JStr (show_int (- 152000))) = Inr (- 152000)
   \<and> (2::nat) ^ 1024 \<le> 10 ^ 309 \<and> safeInt (JStr (show_nat (10 ^ 309))) = Inr 0"
proof -
  have nan: "parseInt_str ''tokens: 12'' = NaN" by code_simp
  have small: "\<bar>- 152000\<bar> \<le> (9007199254740992::int)" by simp
  have big: "(2::nat) ^ 1024 \<le> 10 ^ 309" by simp
  from nan safeInt_lenient have 1: "safeInt (JStr ''tokens: 12'') = Inr 0" by blast
  from small safeInt_lenient
  have 2: "safeInt (num (- 152000)) = Inr (- 152000)
      \<and> safeInt (JStr (show_int (- 152000))) = Inr (- 152000)"
    by blast
  from big safeInt_lenient have 3: "safeInt (JStr (show_nat (10 ^ 309))) = Inr 0" by blast
  from nan small big 1 2 3 show ?thesis by simp
qed

section \<open>Properties of the schemas\<close>

lemma rate_limit_status_key:
  "\<not> test_5hour ''rate_limit_status'' \<and> \<not> test_week ''rate_limit_status''"
  by code_simp






lemma weekly_window_both:
  "test_sessionA ''weekly_window'' \<and> test_sessionB ''weekly_window''
   \<and> test_week ''weekly_window''"
  by code_simp

text \<open>
  C10: in Schema A and in Schema B the session pattern is tested first, so an entry
  whose window kind matches the session pattern and the week pattern, such as
  \<^verbatim>\<open>weekly_window\<close>, sets the session fields and leaves the weekly fields as
  they were.
\<close>

theorem session_before_weekly:
  "(\<forall>entry u t rem tot.
       toStr (typeA entry) = Inr t \<and> test_sessionA t \<and> test_week t
       \<and> remA entry = Inr rem \<and> totA entry = Inr tot
     \<longrightarrow> schemaA_entry entry u =
           Inr (u\<lparr>sessionUsed := tot - rem, sessionLimit := tot, sessionReset := resetA entry\<rparr>))
   \<and> (\<forall>q u t used limit.
       toStr (typeB q) = Inr t \<and> test_sessionB t \<and> test_week t
       \<and> usedB q = Inr used \<and> limitB q = Inr limit
     \<longrightarrow> schemaB_entry q u =
           Inr (u\<lparr>sessionUsed := used, sessionLimit := limit, sessionReset := resetB q\<rparr>))
   \<and> test_sessionA ''weekly_window'' \<and> test_sessionB ''weekly_window''
   \<and> test_week ''weekly_window''"
  using weekly_window_both by (simp add: schemaA_entry_def schemaB_entry_def)

theorem session_before_weekly_witness:
  "schemaA_entry both_entry weekly_before =
     Inr \<lparr>sessionUsed = 30, sessionLimit = 100, sessionReset = JNull,
          weeklyUsed = 7, weeklyLimit = 70, weeklyReset = JStr ''kept''\<rparr>
   \<and> schemaB_entry both_entry weekly_before =
     Inr \<lparr>sessionUsed = 0, sessionLimit = 100, sessionReset = JNull,
          weeklyUsed = 7, weeklyLimit = 70, weeklyReset = JStr ''kept''\<rparr>"
proof -
  have tA: "toStr (typeA both_entry) = Inr ''weekly_window''"
    by (simp add: both_entry_def typeA_def orElse_def)
  have tB: "toStr (typeB both_entry) = Inr ''weekly_window''"
    by (simp add: both_entry_def typeB_def orElse_def)
  have n: "remA both_entry = Inr 70" "totA both_entry = Inr 100"
    "usedB both_entry = Inr 0" "limitB both_entry = Inr 100"
    by (simp_all add: both_entry_def remA_def totA_def usedB_def limitB_def orElse_def
        safeInt_num safeInt_examples)
  have r: "resetA both_entry = JNull" "resetB both_entry = JNull"
    by (simp_all add: both_entry_def resetA_def resetB_def orElse_def)
  have both: "test_sessionA ''weekly_window''" "test_sessionB ''weekly_window''"
    "test_week ''weekly_window''"
    using session_before_weekly by blast+
  have "schemaA_entry both_entry weekly_before =
      Inr (weekly_before\<lparr>sessionUsed := 100 - 70, sessionLimit := 100,
             sessionReset := resetA both_entry\<rparr>)"
    using session_before_weekly tA n both by blast
  moreover have "schemaB_entry both_entry weekly_before =
      Inr (weekly_before\<lparr>sessionUsed := 0, sessionLimit := 100,
             sessionReset := resetB both_entry\<rparr>)"
    using session_before_weekly tB n both by blast
  ultimately show ?thesis
    by (simp add: weekly_before_def r)
qed

section \<open>The order of the schemas\<close>


lemma schemaC_skipped: "1 < sessionLimit u \<Longrightarrow> schemaC data u = Inr u"
  by (simp add: schemaC_def)







lemma overwrite_types: "test_sessionA ''window'' \<and> test_sessionB ''session''"
  by code_simp

lemma weekly_type: "\<not> test_sessionB ''weekly'' \<and> test_week ''weekly''"
  by code_simp

lemma quota_normalize:
  assumes "\<bar>s\<bar> \<le> 9007199254740992" "\<bar>w\<bar> \<le> 9007199254740992"
  shows "normalize (quota_payload s w) =
     Inr \<lparr>sessionUsed = s, sessionLimit = 200000, sessionReset = JNull,
          weeklyUsed = w, weeklyLimit = 1000000, weeklyReset = JNull\<rparr>"
proof -
  have a: "schemaA (quota_payload s w) init_usage = Inr init_usage"
    by (simp add: schemaA_def quota_payload_def)
  have b: "schemaB (quota_payload s w) init_usage =
     Inr \<lparr>sessionUsed = s, sessionLimit = 200000, sessionReset = JNull,
          weeklyUsed = w, weeklyLimit = 1000000, weeklyReset = JNull\<rparr>"
    using overwrite_types weekly_type assms
    by (simp add: schemaB_def quotasOf_def quota_payload_def schemaB_entry_def typeB_def
        usedB_def limitB_def resetB_def orElse_def safeInt_num init_usage_def)
  show ?thesis by (simp add: normalize_def schemaAB_def a b schemaC_skipped)
qed

















section \<open>The quota windows and the percentage\<close>









section \<open>Totality of the normalizer\<close>

lemma no_toString_props_keys:
  "no_toString_props kvs \<Longrightarrow> ''toString'' \<notin> set (map fst kvs)"
  by (induction kvs) force+

lemma toStr_total:
  "no_toString v \<Longrightarrow> \<exists>s. toStr v = Inr s"
  "no_toString_list xs \<Longrightarrow> \<exists>s. joinStr xs = Inr s"
  "no_toString v \<Longrightarrow> \<exists>s. elemStr v = Inr s"
proof (induction v and xs and v rule: toStr_joinStr_elemStr.induct)
  case (7 kvs)
  then show ?case using no_toString_props_keys [of kvs] by simp
next
  case (10 x y ys)
  then obtain s where s: "elemStr x = Inr s" by auto
  with 10 obtain t where "joinStr (y # ys) = Inr t" by auto
  with s show ?case by simp
qed auto

lemma lookup_no_toString: "no_toString_props kvs \<Longrightarrow> no_toString (lookup kvs k)"
  by (induction kvs) auto

lemma getp_no_toString: "no_toString v \<Longrightarrow> no_toString (getp v k)"
  by (cases v) (simp_all add: lookup_no_toString)

lemma orElse_no_toString: "no_toString a \<Longrightarrow> no_toString b \<Longrightarrow> no_toString (orElse a b)"
  by (simp add: orElse_def)

lemma safeInt_total: "no_toString v \<Longrightarrow> \<exists>n. safeInt v = Inr n"
  using toStr_total(1) [of v]
  by (auto simp add: safeInt_def parseInt_def split: number.splits)

lemma forEach_total:
  "(\<And>x u. x \<in> set xs \<Longrightarrow> \<exists>u'. f x u = Inr u') \<Longrightarrow> \<exists>u'. forEach f xs u = Inr u'"
proof (induction xs arbitrary: u)
  case Nil
  show ?case by simp
next
  case (Cons x xs)
  from Cons.prems [of x u] obtain u1 where u1: "f x u = Inr u1" by auto
  from Cons.IH [of u1] Cons.prems obtain u2 where "forEach f xs u1 = Inr u2" by auto
  with u1 show ?case by simp
qed

lemma forEach_unchanged:
  "(\<And>x u. x \<in> set xs \<Longrightarrow> f x u = Inr u) \<Longrightarrow> forEach f xs u = Inr u"
  by (induction xs arbitrary: u) simp_all

lemma no_toString_list_set: "no_toString_list xs \<Longrightarrow> x \<in> set xs \<Longrightarrow> no_toString x"
  by (induction xs) auto

lemma no_toString_props_set:
  "no_toString_props kvs \<Longrightarrow> (k, v) \<in> set kvs \<Longrightarrow> no_toString v"
  by (induction kvs) auto

lemma objectEntries_no_toString:
  assumes "no_toString v" "(k, x) \<in> set (objectEntries v)"
  shows "no_toString x"
proof (cases v)
  case (JObj kvs)
  with assms show ?thesis using no_toString_props_set by simp
next
  case (JArr xs)
  with assms have "x \<in> set xs" by (auto dest: set_zip_rightD)
  with JArr assms show ?thesis using no_toString_list_set by simp
next
  case (JStr s)
  with assms have "x \<in> set (map (\<lambda>c. JStr [c]) s)" by (auto dest: set_zip_rightD)
  then show ?thesis by auto
qed (use assms in simp_all)

lemma objectValues_no_toString:
  "no_toString v \<Longrightarrow> x \<in> set (objectValues v) \<Longrightarrow> no_toString x"
  using objectEntries_no_toString by (fastforce simp add: objectValues_def)


lemma schemaA_entry_total: "no_toString entry \<Longrightarrow> \<exists>u'. schemaA_entry entry u = Inr u'"
proof -
  assume n: "no_toString entry"
  have "no_toString (orElse (getp entry ''remaining'') (getp entry ''tokens_remaining''))"
    using n by (simp add: orElse_no_toString getp_no_toString)
  then obtain rem where rem: "remA entry = Inr rem"
    using safeInt_total unfolding remA_def by blast
  have "no_toString (orElse (orElse (getp entry ''total'') (getp entry ''tokens_total''))
      (getp entry ''limit''))"
    using n by (simp add: orElse_no_toString getp_no_toString)
  then obtain tot where tot: "totA entry = Inr tot"
    using safeInt_total unfolding totA_def by blast
  have "no_toString (typeA entry)"
    using n by (simp add: typeA_def orElse_no_toString getp_no_toString)
  then obtain t where "toStr (typeA entry) = Inr t" using toStr_total(1) by blast
  with rem tot show ?thesis by (simp add: schemaA_entry_def Let_def)
qed

lemma schemaB_entry_total: "no_toString q \<Longrightarrow> \<exists>u'. schemaB_entry q u = Inr u'"
proof -
  assume n: "no_toString q"
  have "no_toString (orElse (getp q ''used'') (getp q ''tokens_used''))"
    using n by (simp add: orElse_no_toString getp_no_toString)
  then obtain used where used: "usedB q = Inr used"
    using safeInt_total unfolding usedB_def by blast
  have "no_toString (orElse (orElse (getp q ''limit'') (getp q ''tokens_limit''))
      (getp q ''total''))"
    using n by (simp add: orElse_no_toString getp_no_toString)
  then obtain limit where limit: "limitB q = Inr limit"
    using safeInt_total unfolding limitB_def by blast
  have "no_toString (typeB q)"
    using n by (simp add: typeB_def orElse_no_toString getp_no_toString)
  then obtain t where "toStr (typeB q) = Inr t" using toStr_total(1) by blast
  with used limit show ?thesis by (simp add: schemaB_entry_def Let_def)
qed

lemma setIf_total: "no_toString v \<Longrightarrow> \<exists>u'. setIf c v upd u = Inr u'"
  using safeInt_total [of v] by (auto simp add: setIf_def)

lemma schemaC_entry_total:
  assumes "no_toString (snd kv)"
  shows "\<exists>u'. schemaC_entry kv u = Inr u'"
proof -
  obtain u1 where u1: "setIf (test_5hour (fst kv) \<and> test_used (fst kv)) (snd kv)
      (\<lambda>n u. u\<lparr>sessionUsed := n\<rparr>) u = Inr u1"
    using setIf_total [OF assms] by blast
  obtain u2 where u2: "setIf (test_5hour (fst kv) \<and> test_limit_total (fst kv)) (snd kv)
      (\<lambda>n u. u\<lparr>sessionLimit := n\<rparr>) u1 = Inr u2"
    using setIf_total [OF assms] by blast
  obtain u3 where u3: "setIf (test_week (fst kv) \<and> test_used (fst kv)) (snd kv)
      (\<lambda>n u. u\<lparr>weeklyUsed := n\<rparr>) u2 = Inr u3"
    using setIf_total [OF assms] by blast
  obtain u4 where u4: "setIf (test_week (fst kv) \<and> test_limit_total (fst kv)) (snd kv)
      (\<lambda>n u. u\<lparr>weeklyLimit := n\<rparr>) u3 = Inr u4"
    using setIf_total [OF assms] by blast
  from u1 u2 u3 u4 show ?thesis by (simp add: schemaC_entry_def Let_def)
qed

lemma schemaA_total:
  assumes "no_toString data"
  shows "\<exists>u'. schemaA data u = Inr u'"
proof -
  let ?rl = "getp data ''rate_limit_status''"
  have rl: "no_toString ?rl" using assms by (rule getp_no_toString)
  have "x \<in> set (case ?rl of JArr xs \<Rightarrow> xs | _ \<Rightarrow> objectValues ?rl) \<Longrightarrow> no_toString x"
    for x
    using rl objectValues_no_toString [of ?rl x] no_toString_list_set
    by (cases ?rl) auto
  then have "\<exists>u'. forEach schemaA_entry
      (case ?rl of JArr xs \<Rightarrow> xs | _ \<Rightarrow> objectValues ?rl) u = Inr u'"
    by (intro forEach_total schemaA_entry_total)
  then show ?thesis by (simp add: schemaA_def Let_def)
qed

lemma schemaB_total:
  assumes "no_toString data"
  shows "\<exists>u'. schemaB data u = Inr u'"
proof -
  have q: "no_toString (quotasOf data)"
    using assms by (simp add: quotasOf_def orElse_no_toString getp_no_toString)
  have "x \<in> set (case quotasOf data of JArr xs \<Rightarrow> xs | _ \<Rightarrow> []) \<Longrightarrow> no_toString x" for x
    using q no_toString_list_set by (cases "quotasOf data") auto
  then show ?thesis
    unfolding schemaB_def by (intro forEach_total schemaB_entry_total)
qed

lemma schemaC_total:
  assumes "no_toString data"
  shows "\<exists>u'. schemaC data u = Inr u'"
proof -
  have "no_toString (orElse data (JObj []))" using assms by (simp add: orElse_def)
  then have "kv \<in> set (objectEntries (orElse data (JObj []))) \<Longrightarrow> no_toString (snd kv)" for kv
    using objectEntries_no_toString [of "orElse data (JObj [])" "fst kv" "snd kv"] by simp
  then have "\<exists>u'. forEach schemaC_entry (objectEntries (orElse data (JObj []))) u = Inr u'"
    by (intro forEach_total schemaC_entry_total)
  then show ?thesis by (simp add: schemaC_def)
qed

lemma normalize_total:
  assumes "no_toString data"
  shows "\<exists>u. normalize data = Inr u"
proof -
  obtain a where a: "schemaA data init_usage = Inr a" using schemaA_total [OF assms] by blast
  obtain b where b: "schemaB data a = Inr b" using schemaB_total [OF assms] by blast
  obtain c where "schemaC data b = Inr c" using schemaC_total [OF assms] by blast
  with a b show ?thesis by (simp add: normalize_def schemaAB_def)
qed

lemma schemaC_entry_unmatched:
  "\<not> test_5hour (fst kv) \<Longrightarrow> \<not> test_week (fst kv) \<Longrightarrow> schemaC_entry kv u = Inr u"
  by (simp add: schemaC_entry_def setIf_def)

lemma normalize_unrecognized:
  assumes "unrecognized data"
  shows "normalize data = Inr init_usage"
proof -
  from assms have a: "schemaA data init_usage = Inr init_usage"
    by (simp add: unrecognized_def schemaA_def)
  from assms have "(case quotasOf data of JArr xs \<Rightarrow> xs | _ \<Rightarrow> []) = []"
    by (auto simp add: unrecognized_def split: jsval.splits)
  then have b: "schemaB data init_usage = Inr init_usage"
    by (simp add: schemaB_def)
  from assms have "kv \<in> set (objectEntries (orElse data (JObj [])))
      \<Longrightarrow> \<not> test_5hour (fst kv) \<and> \<not> test_week (fst kv)" for kv
    by (simp add: unrecognized_def list_all_iff)
  then have "forEach schemaC_entry (objectEntries (orElse data (JObj []))) init_usage =
      Inr init_usage"
    by (intro forEach_unchanged schemaC_entry_unmatched) auto
  then have "schemaC data init_usage = Inr init_usage" by (simp add: schemaC_def)
  with a b show ?thesis by (simp add: normalize_def schemaAB_def)
qed


lemma match_here_chars:
  "match_here p s \<Longrightarrow> Ch c \<in> set p \<Longrightarrow> \<exists>x \<in> set s. canon x = canon c"
  by (induction p s rule: match_here.induct) auto

lemma search_chars:
  "search p s \<Longrightarrow> Ch c \<in> set p \<Longrightarrow> \<exists>x \<in> set s. canon x = canon c"
proof (induction s)
  case Nil
  then show ?case using match_here_chars [of p "[]" c] by simp
next
  case (Cons a s)
  show ?case
  proof (cases "match_here p (a # s)")
    case True
    then show ?thesis using match_here_chars Cons.prems(2) by blast
  next
    case False
    with Cons.prems have "search p s" by simp
    with Cons.IH Cons.prems(2) show ?thesis by auto
  qed
qed

lemma digit_not_letter:
  assumes "is_digit x" "97 \<le> (of_char c :: nat)" "(of_char c :: nat) \<le> 122"
  shows "canon x \<noteq> canon c"
proof
  assume eq: "canon x = canon c"
  from assms(1) have x: "48 \<le> (of_char x :: nat)" "(of_char x :: nat) \<le> 57"
    by (simp_all add: is_digit_def Let_def)
  then have "canon x = x" by (simp add: canon_def Let_def)
  moreover from assms(2,3) have "canon c = char_of ((of_char c :: nat) - 32)"
    by (simp add: canon_def Let_def)
  ultimately have "x = char_of ((of_char c :: nat) - 32)" using eq by simp
  then have "(of_char x :: nat) = ((of_char c :: nat) - 32) mod 256" by simp
  with assms(2,3) x show False by simp
qed

lemma digits_no_hour_week:
  assumes "\<forall>x \<in> set s. is_digit x"
  shows "\<not> test_5hour s \<and> \<not> test_week s"
proof -
  have "\<not> search re_5hour_optdot s"
  proof
    assume "search re_5hour_optdot s"
    moreover have "Ch CHR ''h'' \<in> set re_5hour_optdot"
      by (simp add: re_5hour_optdot_def lit_def)
    ultimately obtain x where "x \<in> set s" "canon x = canon CHR ''h''"
      using search_chars by blast
    with assms show False using digit_not_letter [of x "CHR ''h''"] by simp
  qed
  moreover have "\<not> search (lit ''week'') s"
  proof
    assume "search (lit ''week'') s"
    moreover have "Ch CHR ''w'' \<in> set (lit ''week'')" by (simp add: lit_def)
    ultimately obtain x where "x \<in> set s" "canon x = canon CHR ''w''"
      using search_chars by blast
    with assms show False using digit_not_letter [of x "CHR ''w''"] by simp
  qed
  ultimately show ?thesis by (simp add: test_5hour_def test_week_def)
qed

lemma index_keys:
  assumes "kv \<in> set (zip (map show_nat [0..<n]) vs)"
  shows "\<not> test_5hour (fst kv) \<and> \<not> test_week (fst kv)"
proof -
  obtain a b where kv: "kv = (a, b)" by (cases kv)
  with assms have "a \<in> set (map show_nat [0..<n])" by (auto dest: set_zip_leftD)
  with kv have "fst kv \<in> set (map show_nat [0..<n])" by simp
  then obtain i where "fst kv = show_nat i" by auto
  then show ?thesis using digits_no_hour_week [of "show_nat i"] show_nat_digits by simp
qed

lemma non_object_unrecognized:
  assumes "\<forall>kvs. data \<noteq> JObj kvs"
  shows "unrecognized data"
proof -
  from assms have g: "getp data k = JUndefined" for k by (cases data) simp_all
  have q: "quotasOf data = JArr []" by (simp add: quotasOf_def g orElse_def)
  have "\<forall>kv \<in> set (objectEntries (orElse data (JObj []))).
      \<not> test_5hour (fst kv) \<and> \<not> test_week (fst kv)"
  proof (cases data)
    case (JStr cs)
    then show ?thesis
      using index_keys [of _ "length cs" "map (\<lambda>c. JStr [c]) cs"]
      by (simp add: orElse_def)
  next
    case (JArr xs)
    then show ?thesis using index_keys [of _ "length xs" xs] by (simp add: orElse_def)
  next
    case (JObj kvs)
    with assms show ?thesis by simp
  qed (simp_all add: orElse_def)
  then show ?thesis by (simp add: unrecognized_def g q list_all_iff)
qed

lemma throwing_normalize: "normalize throwing_payload = Inl TypeError"
  by (simp add: throwing_payload_def normalize_def schemaAB_def schemaA_def objectValues_def
      schemaA_entry_def remA_def totA_def typeA_def orElse_def safeInt_num)

lemma unknown_unrecognized: "unrecognized unknown_payload"
proof -
  have "\<not> test_5hour ''plan'' \<and> \<not> test_week ''plan''
      \<and> \<not> test_5hour ''messages'' \<and> \<not> test_week ''messages''"
    by code_simp
  then show ?thesis
    by (simp add: unrecognized_def unknown_payload_def quotasOf_def orElse_def)
qed


lemma cookieHeader_settings0: "cookieHeader settings0 = Some ''sessionKey=sk-ant-sid01-abc''"
proof -
  have "trim ''sk-ant-sid01-abc'' = ''sk-ant-sid01-abc''" by code_simp
  then show ?thesis by (simp add: cookieHeader_def settings0_def startsWith_def)
qed

lemma get_server_of:
  "cookieHeader (settings st) = Some cookie \<Longrightarrow>
   get (server_of data) url st = (Inr data, st\<lparr>requests := requests st @ [(url, cookie)]\<rparr>)"
  by (simp add: get_def server_of_def)

lemma fetchUsage_throws:
  assumes "toStr (orgId st) = Inr org" "get server (usageUrl org) st = (Inr data, st1)"
    "normalize data = Inl e"
  shows "fetchUsage server st =
    (ParseError e, scheduleNextPoll 60 (setStatus (parseErrorText e) st1))"
  using assms by (simp add: fetchUsage_def applyUsageData_def)

lemma forEach_preserves:
  assumes "\<And>x u u'. x \<in> set xs \<Longrightarrow> f x u = Inr u' \<Longrightarrow> P u \<Longrightarrow> P u'"
    and "forEach f xs u = Inr u'" and "P u"
  shows "P u'"
  using assms
proof (induction xs arbitrary: u)
  case Nil
  then show ?case by simp
next
  case (Cons x xs)
  from Cons.prems(2) obtain u1 where u1: "f x u = Inr u1" and r: "forEach f xs u1 = Inr u'"
    by (cases "f x u") auto
  from Cons.prems(1) [of x u u1] u1 Cons.prems(3) have "P u1" by simp
  with Cons.IH [of u1] Cons.prems(1) r show ?case by auto
qed

lemma schemaA_entries: "schemaA data u = forEach schemaA_entry (entriesA data) u"
  by (simp add: schemaA_def entriesA_def Let_def)

lemma schemaB_entries: "schemaB data u = forEach schemaB_entry (entriesB data) u"
  by (simp add: schemaB_def entriesB_def)

lemma schemaA_entry_weekly:
  assumes "\<not> kind_matches (\<lambda>t. \<not> test_sessionA t \<and> test_week t) (typeA e)"
    "schemaA_entry e u = Inr u'" "weekly_default u"
  shows "weekly_default u'"
  using assms
  by (auto simp add: schemaA_entry_def kind_matches_def weekly_default_def Let_def
      split: sum.splits if_splits)

lemma schemaB_entry_weekly:
  assumes "\<not> kind_matches (\<lambda>t. \<not> test_sessionB t \<and> test_week t) (typeB q)"
    "schemaB_entry q u = Inr u'" "weekly_default u"
  shows "weekly_default u'"
  using assms
  by (auto simp add: schemaB_entry_def kind_matches_def weekly_default_def Let_def
      split: sum.splits if_splits)

lemma schemaC_entry_weekly:
  assumes "\<not> (test_week (fst kv) \<and> (test_used (fst kv) \<or> test_limit_total (fst kv)))"
    "schemaC_entry kv u = Inr u'" "weekly_default u"
  shows "weekly_default u'"
  using assms
  by (auto simp add: schemaC_entry_def setIf_def weekly_default_def Let_def
      split: sum.splits if_splits)

lemma schemaA_entry_session:
  assumes "\<not> kind_matches test_sessionA (typeA e)"
    "schemaA_entry e u = Inr u'" "session_default u"
  shows "session_default u'"
  using assms
  by (auto simp add: schemaA_entry_def kind_matches_def session_default_def Let_def
      split: sum.splits if_splits)

lemma schemaB_entry_session:
  assumes "\<not> kind_matches test_sessionB (typeB q)"
    "schemaB_entry q u = Inr u'" "session_default u"
  shows "session_default u'"
  using assms
  by (auto simp add: schemaB_entry_def kind_matches_def session_default_def Let_def
      split: sum.splits if_splits)

lemma schemaC_entry_session:
  assumes "\<not> (test_5hour (fst kv) \<and> (test_used (fst kv) \<or> test_limit_total (fst kv)))"
    "schemaC_entry kv u = Inr u'" "session_default u"
  shows "session_default u'"
  using assms
  by (auto simp add: schemaC_entry_def setIf_def session_default_def Let_def
      split: sum.splits if_splits)

lemma normalize_steps:
  assumes "normalize data = Inr u"
  obtains a b where "forEach schemaA_entry (entriesA data) init_usage = Inr a"
    "forEach schemaB_entry (entriesB data) a = Inr b"
    "u = b \<or> forEach schemaC_entry (objectEntries (orElse data (JObj []))) b = Inr u"
proof -
  from assms obtain a where a: "schemaA data init_usage = Inr a"
    by (cases "schemaA data init_usage") (simp_all add: normalize_def schemaAB_def)
  with assms obtain b where b: "schemaB data a = Inr b"
    by (cases "schemaB data a") (simp_all add: normalize_def schemaAB_def)
  with assms a have "schemaC data b = Inr u" by (simp add: normalize_def schemaAB_def)
  then have "u = b \<or> forEach schemaC_entry (objectEntries (orElse data (JObj []))) b = Inr u"
    by (auto simp add: schemaC_def split: if_splits)
  with a b that show ?thesis by (simp add: schemaA_entries schemaB_entries)
qed

lemma weekly_untouched:
  assumes "normalize data = Inr u" "weekly_unmatched data"
  shows "weeklyUsed u = 0 \<and> weeklyLimit u = 1 \<and> weeklyReset u = JNull"
proof -
  from assms(1) obtain a b where
    a: "forEach schemaA_entry (entriesA data) init_usage = Inr a"
    and b: "forEach schemaB_entry (entriesB data) a = Inr b"
    and c: "u = b \<or> forEach schemaC_entry (objectEntries (orElse data (JObj []))) b = Inr u"
    by (rule normalize_steps)
  have 0: "weekly_default init_usage" by (simp add: weekly_default_def init_usage_def)
  have 1: "weekly_default a"
    using assms(2) schemaA_entry_weekly
    by (intro forEach_preserves [where P = weekly_default, OF _ a 0]) (auto simp add: weekly_unmatched_def list_all_iff)
  have 2: "weekly_default b"
    using assms(2) schemaB_entry_weekly
    by (intro forEach_preserves [where P = weekly_default, OF _ b 1]) (auto simp add: weekly_unmatched_def list_all_iff)
  from c have "weekly_default u"
  proof
    assume "u = b"
    with 2 show ?thesis by simp
  next
    assume c': "forEach schemaC_entry (objectEntries (orElse data (JObj []))) b = Inr u"
    show ?thesis
    proof (rule forEach_preserves [where P = weekly_default, OF _ c' 2])
      fix x v v'
      assume x: "x \<in> set (objectEntries (orElse data (JObj [])))"
        and s: "schemaC_entry x v = Inr v'" "weekly_default v"
      from assms(2) x
      have "\<not> (test_week (fst x) \<and> (test_used (fst x) \<or> test_limit_total (fst x)))"
        by (simp add: weekly_unmatched_def list_all_iff)
      with s show "weekly_default v'" by (rule schemaC_entry_weekly [rotated])
    qed
  qed
  then show ?thesis by (simp add: weekly_default_def)
qed

lemma session_untouched:
  assumes "normalize data = Inr u" "session_unmatched data"
  shows "sessionUsed u = 0 \<and> sessionLimit u = 1 \<and> sessionReset u = JNull"
proof -
  from assms(1) obtain a b where
    a: "forEach schemaA_entry (entriesA data) init_usage = Inr a"
    and b: "forEach schemaB_entry (entriesB data) a = Inr b"
    and c: "u = b \<or> forEach schemaC_entry (objectEntries (orElse data (JObj []))) b = Inr u"
    by (rule normalize_steps)
  have 0: "session_default init_usage" by (simp add: session_default_def init_usage_def)
  have 1: "session_default a"
    using assms(2) schemaA_entry_session
    by (intro forEach_preserves [where P = session_default, OF _ a 0]) (auto simp add: session_unmatched_def list_all_iff)
  have 2: "session_default b"
    using assms(2) schemaB_entry_session
    by (intro forEach_preserves [where P = session_default, OF _ b 1]) (auto simp add: session_unmatched_def list_all_iff)
  from c have "session_default u"
  proof
    assume "u = b"
    with 2 show ?thesis by simp
  next
    assume c': "forEach schemaC_entry (objectEntries (orElse data (JObj []))) b = Inr u"
    show ?thesis
    proof (rule forEach_preserves [where P = session_default, OF _ c' 2])
      fix x v v'
      assume x: "x \<in> set (objectEntries (orElse data (JObj [])))"
        and s: "schemaC_entry x v = Inr v'" "session_default v"
      from assms(2) x
      have "\<not> (test_5hour (fst x) \<and> (test_used (fst x) \<or> test_limit_total (fst x)))"
        by (simp add: session_unmatched_def list_all_iff)
      with s show "session_default v'" by (rule schemaC_entry_session [rotated])
    qed
  qed
  then show ?thesis by (simp add: session_default_def)
qed

text \<open>
  C3 as stated fails: the type of the entry is an object with an own property
  \<^verbatim>\<open>toString\<close>, \<^verbatim>\<open>RegExp.test\<close> cannot convert it to a string, and the
  \<^verbatim>\<open>TypeError\<close> leaves \<^verbatim>\<open>_applyUsageData\<close>.
\<close>

theorem normalize_total_counterexample: "normalize throwing_payload = Inl TypeError"
  by (rule throwing_normalize)

text \<open>
  C3, amended: normalization completes for every payload in which no object has an own
  property \<^verbatim>\<open>toString\<close>; the one exception it can raise is caught by
  \<^verbatim>\<open>_fetchUsage\<close>, which shows a parse error and polls again after 60 seconds. A
  payload in which no schema recognizes anything, and every payload that is not an
  object, yields the defaults \<open>used = 0\<close>, \<open>limit = 1\<close>, \<open>resetAt = null\<close> for both
  windows; and whenever normalization completes, a window to which no entry and no key
  of the payload is assigned is left at these defaults.
\<close>

theorem normalize_lenient:
  "(\<forall>data. no_toString data \<longrightarrow> (\<exists>u. normalize data = Inr u))
   \<and> (\<forall>data. unrecognized data \<longrightarrow> normalize data = Inr init_usage)
   \<and> (\<forall>data. (\<forall>kvs. data \<noteq> JObj kvs) \<longrightarrow> normalize data = Inr init_usage)
   \<and> (\<forall>server st org data st1 e.
         toStr (orgId st) = Inr org \<and> get server (usageUrl org) st = (Inr data, st1)
         \<and> normalize data = Inl e
       \<longrightarrow> fetchUsage server st =
             (ParseError e, scheduleNextPoll 60 (setStatus (parseErrorText e) st1)))
   \<and> (\<forall>data u. normalize data = Inr u \<and> weekly_unmatched data
       \<longrightarrow> weeklyUsed u = 0 \<and> weeklyLimit u = 1 \<and> weeklyReset u = JNull)
   \<and> (\<forall>data u. normalize data = Inr u \<and> session_unmatched data
       \<longrightarrow> sessionUsed u = 0 \<and> sessionLimit u = 1 \<and> sessionReset u = JNull)"
proof (intro conjI allI impI)
  fix data
  assume "no_toString data"
  then show "\<exists>u. normalize data = Inr u" by (rule normalize_total)
next
  fix data
  assume "unrecognized data"
  then show "normalize data = Inr init_usage" by (rule normalize_unrecognized)
next
  fix data
  assume "\<forall>kvs. data \<noteq> JObj kvs"
  then have "unrecognized data" by (rule non_object_unrecognized)
  then show "normalize data = Inr init_usage" by (rule normalize_unrecognized)
next
  fix server st org data st1 e
  assume "toStr (orgId st) = Inr org \<and> get server (usageUrl org) st = (Inr data, st1)
         \<and> normalize data = Inl e"
  then show "fetchUsage server st =
      (ParseError e, scheduleNextPoll 60 (setStatus (parseErrorText e) st1))"
    using fetchUsage_throws by blast
next
  fix data u
  assume w: "normalize data = Inr u \<and> weekly_unmatched data"
  then have "weeklyUsed u = 0 \<and> weeklyLimit u = 1 \<and> weeklyReset u = JNull"
    using weekly_untouched by blast
  then show "weeklyUsed u = 0" "weeklyLimit u = 1" "weeklyReset u = JNull" by simp_all
next
  fix data u
  assume w: "normalize data = Inr u \<and> session_unmatched data"
  then have "sessionUsed u = 0 \<and> sessionLimit u = 1 \<and> sessionReset u = JNull"
    using session_untouched by blast
  then show "sessionUsed u = 0" "sessionLimit u = 1" "sessionReset u = JNull" by simp_all
qed

theorem normalize_lenient_witness:
  "(\<exists>u. normalize scenario_usage = Inr u)
   \<and> normalize unknown_payload = Inr init_usage
   \<and> normalize (JArr [JObj [(''toString'', num 1)]]) = Inr init_usage
   \<and> fst (fetchUsage (server_of throwing_payload) indicator0) = ParseError TypeError
   \<and> timer (snd (fetchUsage (server_of throwing_payload) indicator0)) = Some 60
   \<and> (\<exists>u. normalize scenario_usage = Inr u \<and> weeklyUsed u = 0 \<and> weeklyLimit u = 1)
   \<and> (\<exists>u. normalize weekly_only_payload = Inr u
         \<and> sessionUsed u = 0 \<and> sessionLimit u = 1 \<and> weeklyUsed u = 7)"
proof -
  have "no_toString scenario_usage"
    by (simp add: scenario_usage_def scenario_entry_def)
  with normalize_lenient have 1: "\<exists>u. normalize scenario_usage = Inr u" by blast
  then obtain u1 where u1: "normalize scenario_usage = Inr u1" by blast
  have "\<not> test_week ''window5Hour''" by code_simp
  then have "weekly_unmatched scenario_usage"
    using rate_limit_status_key
    by (simp add: weekly_unmatched_def entriesA_def entriesB_def quotasOf_def
        objectValues_def kind_matches_def typeA_def scenario_usage_def scenario_entry_def
        orElse_def)
  with normalize_lenient u1 have "weeklyUsed u1 = 0 \<and> weeklyLimit u1 = 1" by blast
  with u1 have 6: "\<exists>u. normalize scenario_usage = Inr u \<and> weeklyUsed u = 0 \<and> weeklyLimit u = 1"
    by blast
  have "no_toString weekly_only_payload" by (simp add: weekly_only_payload_def)
  with normalize_lenient obtain u2 where u2: "normalize weekly_only_payload = Inr u2"
    by blast
  have k: "\<not> test_5hour ''quotas''" by code_simp
  have "session_unmatched weekly_only_payload"
    using weekly_type k
    by (simp add: session_unmatched_def entriesA_def entriesB_def quotasOf_def
        kind_matches_def typeB_def weekly_only_payload_def orElse_def)
  with normalize_lenient u2 have "sessionUsed u2 = 0 \<and> sessionLimit u2 = 1" by blast
  moreover have "weeklyUsed u2 = 7"
  proof -
    have "schemaB weekly_only_payload init_usage =
        Inr (init_usage\<lparr>weeklyUsed := 7, weeklyLimit := 70, weeklyReset := JNull\<rparr>)"
      using weekly_type
      by (simp add: schemaB_def quotasOf_def weekly_only_payload_def schemaB_entry_def
          typeB_def usedB_def limitB_def resetB_def orElse_def safeInt_num)
    moreover have "schemaA weekly_only_payload init_usage = Inr init_usage"
      by (simp add: schemaA_def weekly_only_payload_def)
    moreover have "\<not> test_week ''quotas''" by code_simp
    ultimately have "normalize weekly_only_payload =
        Inr (init_usage\<lparr>weeklyUsed := 7, weeklyLimit := 70, weeklyReset := JNull\<rparr>)"
      using k
      by (simp add: normalize_def schemaAB_def schemaC_def schemaC_entry_def setIf_def
          init_usage_def weekly_only_payload_def orElse_def)
    with u2 show ?thesis by auto
  qed
  ultimately have 8: "\<exists>u. normalize weekly_only_payload = Inr u
         \<and> sessionUsed u = 0 \<and> sessionLimit u = 1 \<and> weeklyUsed u = 7"
    using u2 by blast
  from normalize_lenient unknown_unrecognized
  have 2: "normalize unknown_payload = Inr init_usage" by blast
  have "\<forall>kvs. JArr [JObj [(''toString'', num 1)]] \<noteq> JObj kvs" by simp
  with normalize_lenient
  have 3: "normalize (JArr [JObj [(''toString'', num 1)]]) = Inr init_usage" by blast
  have o: "toStr (orgId indicator0) = Inr ''org-1''" by (simp add: indicator0_def)
  have g: "get (server_of throwing_payload) (usageUrl ''org-1'') indicator0 =
      (Inr throwing_payload,
       indicator0\<lparr>requests := requests indicator0 @
         [(usageUrl ''org-1'', ''sessionKey=sk-ant-sid01-abc'')]\<rparr>)"
    by (rule get_server_of) (simp add: indicator0_def cookieHeader_settings0)
  from normalize_lenient o g throwing_normalize
  have "fetchUsage (server_of throwing_payload) indicator0 =
      (ParseError TypeError, scheduleNextPoll 60 (setStatus (parseErrorText TypeError)
        (indicator0\<lparr>requests := requests indicator0 @
         [(usageUrl ''org-1'', ''sessionKey=sk-ant-sid01-abc'')]\<rparr>)))"
    by blast
  then have 4: "fst (fetchUsage (server_of throwing_payload) indicator0) = ParseError TypeError"
    and 5: "timer (snd (fetchUsage (server_of throwing_payload) indicator0)) = Some 60"
    by (simp_all add: scheduleNextPoll_def)
  from 1 2 3 4 5 6 8 show ?thesis by simp
qed

section \<open>The identity resolver and the specification\<close>

lemma shadowed_code: "resolveOrgId shadowed_account = JNull"
  by (simp add: resolveOrgId_def firstOrgId_def shadowed_account_def orElse_def)

lemma shadowed_spec: "spec_resolveOrgId shadowed_account = JStr ''org-2''"
  by (simp add: spec_resolveOrgId_def candidates_def orgIdOf_def shadowed_account_def orElse_def)

lemma falsy_code: "resolveOrgId falsy_account = JStr ''org-9''"
  by (simp add: resolveOrgId_def firstOrgId_def falsy_account_def orElse_def)

lemma falsy_spec: "spec_resolveOrgId falsy_account = JStr []"
  by (simp add: spec_resolveOrgId_def candidates_def orgIdOf_def falsy_account_def orElse_def)

lemma scenario_account_code: "resolveOrgId scenario_account = JStr ''org-1''"
  by (simp add: resolveOrgId_def firstOrgId_def scenario_account_def orElse_def)

lemma orgIdOf_nullish: "nullish m \<Longrightarrow> orgIdOf m = JUndefined"
  by (cases m) (simp_all add: orgIdOf_def orElse_def)

lemma orgIdOf_empty: "orgIdOf (JArr []) = JUndefined"
  by (simp add: orgIdOf_def orElse_def)

lemma firstOrgId_orgIdOf:
  "firstOrgId data =
     orElse (orElse (orgIdOf (orElse (orElse (getp data ''memberships'')
                                 (getp (getp data ''account'') ''memberships'')) (JArr [])))
               (getp data ''id'')) JNull"
  by (simp add: firstOrgId_def orgIdOf_def Let_def orElse_def)

lemma nullish_not_truthy: "nullish v \<Longrightarrow> \<not> truthy v"
  by (cases v) simp_all

lemma resolve_refines:
  assumes lists: "nullish (getp data ''memberships'')
      \<or> \<not> nullish (orgIdOf (getp data ''memberships''))
      \<or> nullish (orgIdOf (getp (getp data ''account'') ''memberships''))"
    and vals: "\<forall>c \<in> set (candidates data). nullish c \<or> truthy c"
  shows "resolveOrgId data = spec_resolveOrgId data"
proof -
  let ?m1 = "getp data ''memberships''"
  let ?m2 = "getp (getp data ''account'') ''memberships''"
  let ?a = "orgIdOf ?m1" and ?b = "orgIdOf ?m2"
  let ?i = "getp data ''id''" and ?o = "getp data ''organization_uuid''"
  let ?d = "getp (getp data ''default_organization'') ''uuid''"
  have spec: "spec_resolveOrgId data = firstNonNull [?a, ?b, ?i, ?o, ?d]"
    by (simp add: spec_resolveOrgId_def candidates_def)
  from vals have t: "nullish ?a \<or> truthy ?a" "nullish ?b \<or> truthy ?b"
    "nullish ?i \<or> truthy ?i" "nullish ?o \<or> truthy ?o" "nullish ?d \<or> truthy ?d"
    by (simp_all add: candidates_def)
  have m: "orgIdOf (orElse (orElse ?m1 ?m2) (JArr [])) = (if nullish ?a then ?b else ?a)
      \<or> (nullish ?a \<and> nullish ?b
          \<and> nullish (orgIdOf (orElse (orElse ?m1 ?m2) (JArr []))))"
  proof (cases "nullish ?m1")
    case True
    then have a: "?a = JUndefined" by (rule orgIdOf_nullish)
    show ?thesis
    proof (cases "nullish ?m2")
      case True
      with \<open>nullish ?m1\<close> a show ?thesis
        by (simp add: orElse_def orgIdOf_empty orgIdOf_nullish)
    next
      case False
      with \<open>nullish ?m1\<close> a show ?thesis by (simp add: orElse_def)
    qed
  next
    case False
    then have e: "orElse (orElse ?m1 ?m2) (JArr []) = ?m1" by (simp add: orElse_def)
    from False lists show ?thesis unfolding e by auto
  qed
  let ?f = "orgIdOf (orElse (orElse ?m1 ?m2) (JArr []))"
  have code: "resolveOrgId data =
      (if \<not> truthy (orElse (orElse ?f ?i) JNull) then orElse (orElse ?o ?d) JNull
       else orElse (orElse ?f ?i) JNull)"
    by (simp add: resolveOrgId_def firstOrgId_orgIdOf Let_def)
  from m show ?thesis
  proof
    assume f: "?f = (if nullish ?a then ?b else ?a)"
    show ?thesis
      unfolding code spec f using t nullish_not_truthy
      by (auto simp add: orElse_def)
  next
    assume f: "nullish ?a \<and> nullish ?b \<and> nullish ?f"
    show ?thesis
      unfolding code spec using f t nullish_not_truthy
      by (auto simp add: orElse_def)
  qed
qed


lemma get_orgId: "get server url st = (r, st1) \<Longrightarrow> orgId st1 = orgId st"
  by (auto simp add: get_def Let_def split: option.splits response.splits if_splits)

lemma applyUsageData_orgId: "applyUsageData data st = (r, st') \<Longrightarrow> orgId st' = orgId st"
  by (auto simp add: applyUsageData_def Let_def scheduleNextPoll_def
      split: sum.splits option.splits)

lemma fetchUsage_orgId: "fetchUsage server st = (r, st') \<Longrightarrow> orgId st' = orgId st"
proof (cases "toStr (orgId st)")
  case (Inl e)
  then show "fetchUsage server st = (r, st') \<Longrightarrow> orgId st' = orgId st"
    by (auto simp add: fetchUsage_def)
next
  case (Inr org)
  assume f: "fetchUsage server st = (r, st')"
  obtain g st1 where g: "get server (usageUrl org) st = (g, st1)"
    by (cases "get server (usageUrl org) st")
  then have o1: "orgId st1 = orgId st" by (rule get_orgId)
  show "orgId st' = orgId st"
  proof (cases g)
    case (Inl err)
    with f g Inr o1 show ?thesis
      by (auto simp add: fetchUsage_def scheduleNextPoll_def setStatus_def)
  next
    case data: (Inr data)
    obtain a st2 where a: "applyUsageData data st1 = (a, st2)"
      by (cases "applyUsageData data st1")
    then have "orgId st2 = orgId st1" by (rule applyUsageData_orgId)
    with f g Inr o1 data a show ?thesis
      by (cases a) (auto simp add: fetchUsage_def scheduleNextPoll_def setStatus_def)
  qed
qed

lemma fetchAccount_resolves:
  assumes "get server ACCOUNT_ENDPOINT (setStatus ''Connecting...'' st) = (Inr data, st1)"
  shows "orgId (snd (fetchAccount server st)) = resolveOrgId data"
    and "\<not> truthy (resolveOrgId data) \<Longrightarrow>
      fetchAccount server st =
        (OrganizationNotFound,
         scheduleNextPoll 60 (setStatus ''Could not resolve organization ID.''
           (st1\<lparr>orgId := resolveOrgId data\<rparr>)))"
proof -
  show nf: "fetchAccount server st =
        (OrganizationNotFound,
         scheduleNextPoll 60 (setStatus ''Could not resolve organization ID.''
           (st1\<lparr>orgId := resolveOrgId data\<rparr>)))"
    if "\<not> truthy (resolveOrgId data)"
    using assms that by (simp add: fetchAccount_def Let_def)
  show "orgId (snd (fetchAccount server st)) = resolveOrgId data"
  proof (cases "truthy (resolveOrgId data)")
    case False
    then show ?thesis using nf by (simp add: scheduleNextPoll_def setStatus_def)
  next
    case True
    obtain r st3 where u: "fetchUsage server (st1\<lparr>orgId := resolveOrgId data\<rparr>) = (r, st3)"
      by (cases "fetchUsage server (st1\<lparr>orgId := resolveOrgId data\<rparr>)")
    then have "orgId st3 = resolveOrgId data" using fetchUsage_orgId by fastforce
    with assms True u show ?thesis
      by (cases r) (simp_all add: fetchAccount_def Let_def scheduleNextPoll_def setStatus_def)
  qed
qed

text \<open>
  C5 as stated fails. The account list is read only when the top-level list is null or
  absent, so an empty top-level list hides the organization under \<^verbatim>\<open>account\<close>; and
  the step from the first group of locations to \<^verbatim>\<open>organization_uuid\<close> is taken on a
  falsy value, so an empty top-level \<^verbatim>\<open>id\<close> does not win although it is not null.
\<close>

theorem resolveOrgId_counterexample:
  "resolveOrgId shadowed_account = JNull
   \<and> spec_resolveOrgId shadowed_account = JStr ''org-2''
   \<and> resolveOrgId falsy_account = JStr ''org-9''
   \<and> spec_resolveOrgId falsy_account = JStr []"
  by (simp only: shadowed_code shadowed_spec falsy_code falsy_spec)

text \<open>
  C5, amended: the code agrees with the order of the specification whenever the two
  membership lists do not compete (the top-level list is null or absent, or it yields an
  identifier, or the account list yields none) and every candidate identifier is null or
  truthy. The payload of the scenario resolves to \<^verbatim>\<open>org-1\<close>; the identifier found is
  cached, and a falsy result ends the cycle with \<open>OrganizationNotFound\<close> and a poll
  after 60 seconds.
\<close>

theorem resolveOrgId_order:
  "(\<forall>data.
      (nullish (getp data ''memberships'')
       \<or> \<not> nullish (orgIdOf (getp data ''memberships''))
       \<or> nullish (orgIdOf (getp (getp data ''account'') ''memberships'')))
      \<and> (\<forall>c \<in> set (candidates data). nullish c \<or> truthy c)
    \<longrightarrow> resolveOrgId data = spec_resolveOrgId data)
   \<and> resolveOrgId scenario_account = JStr ''org-1''
   \<and> (\<forall>server st data st1.
        get server ACCOUNT_ENDPOINT (setStatus ''Connecting...'' st) = (Inr data, st1)
      \<longrightarrow> orgId (snd (fetchAccount server st)) = resolveOrgId data
          \<and> (\<not> truthy (resolveOrgId data) \<longrightarrow>
               fetchAccount server st =
                 (OrganizationNotFound,
                  scheduleNextPoll 60 (setStatus ''Could not resolve organization ID.''
                    (st1\<lparr>orgId := resolveOrgId data\<rparr>)))))"
  using resolve_refines scenario_account_code fetchAccount_resolves by blast


theorem resolveOrgId_order_witness:
  "spec_resolveOrgId scenario_account = JStr ''org-1''
   \<and> fst (fetchAccount (server_of (JObj [])) indicator0) = OrganizationNotFound
   \<and> timer (snd (fetchAccount (server_of (JObj [])) indicator0)) = Some 60"
proof -
  have "\<not> nullish (orgIdOf (getp scenario_account ''memberships''))"
    by (simp add: scenario_account_def orgIdOf_def orElse_def)
  moreover have "\<forall>c \<in> set (candidates scenario_account). nullish c \<or> truthy c"
    by (simp add: scenario_account_def candidates_def orgIdOf_def orElse_def)
  ultimately have "resolveOrgId scenario_account = spec_resolveOrgId scenario_account"
    using resolveOrgId_order by blast
  moreover have "resolveOrgId scenario_account = JStr ''org-1''"
    using resolveOrgId_order by blast
  ultimately have 1: "spec_resolveOrgId scenario_account = JStr ''org-1''" by simp
  let ?st1 = "(setStatus ''Connecting...'' indicator0)
      \<lparr>requests := requests (setStatus ''Connecting...'' indicator0) @
         [(ACCOUNT_ENDPOINT, ''sessionKey=sk-ant-sid01-abc'')]\<rparr>"
  have g: "get (server_of (JObj [])) ACCOUNT_ENDPOINT (setStatus ''Connecting...'' indicator0) =
      (Inr (JObj []), ?st1)"
    by (rule get_server_of) (simp add: setStatus_def indicator0_def cookieHeader_settings0)
  have n: "\<not> truthy (resolveOrgId (JObj []))"
    by (simp add: resolveOrgId_def firstOrgId_def orElse_def)
  from resolveOrgId_order g n
  have "fetchAccount (server_of (JObj [])) indicator0 =
      (OrganizationNotFound,
       scheduleNextPoll 60 (setStatus ''Could not resolve organization ID.''
         (?st1\<lparr>orgId := resolveOrgId (JObj [])\<rparr>)))"
    by blast
  then have "fst (fetchAccount (server_of (JObj [])) indicator0) = OrganizationNotFound"
    "timer (snd (fetchAccount (server_of (JObj [])) indicator0)) = Some 60"
    by (simp_all add: scheduleNextPoll_def)
  with 1 show ?thesis by simp
qed

section \<open>The adaptive scheduler\<close>

lemma get_Inr:
  assumes "get server url st = (Inr data, st1)"
  shows "\<exists>cookie status. cookieHeader (settings st) = Some cookie
      \<and> server url = Answered status (Some data) \<and> 200 \<le> status \<and> status < 300
      \<and> st1 = st\<lparr>requests := requests st @ [(url, cookie)]\<rparr>"
  using assms
  by (auto simp add: get_def Let_def split: option.splits response.splits if_splits)

lemma applyUsageData_success:
  assumes "applyUsageData data st = (None, st')"
  shows "\<exists>u. normalize data = Inr u \<and> details st' = Some u
      \<and> timer st' = Some (if lastSessionUsed st < sessionUsed u \<or> lastWeeklyUsed st < weeklyUsed u
                          then poll_interval_active (settings st)
                          else poll_interval_idle (settings st))
      \<and> lastSessionUsed st' = sessionUsed u \<and> lastWeeklyUsed st' = weeklyUsed u
      \<and> last_session_used (settings st') = sessionUsed u
      \<and> last_weekly_used (settings st') = weeklyUsed u"
proof (cases "normalize data")
  case (Inl e)
  with assms show ?thesis by (simp add: applyUsageData_def)
next
  case (Inr u)
  with assms show ?thesis
    by (auto simp add: applyUsageData_def Let_def scheduleNextPoll_def
        split: option.splits if_splits)
qed

lemma fetchUsage_success:
  assumes "fetchUsage server st = (Success, st')"
  shows "\<exists>org cookie status data.
      toStr (orgId st) = Inr org \<and> server (usageUrl org) = Answered status (Some data)
      \<and> applyUsageData data (st\<lparr>requests := requests st @ [(usageUrl org, cookie)]\<rparr>)
          = (None, st')"
proof (cases "toStr (orgId st)")
  case (Inl e)
  with assms show ?thesis by (simp add: fetchUsage_def)
next
  case (Inr org)
  obtain g st1 where g: "get server (usageUrl org) st = (g, st1)"
    by (cases "get server (usageUrl org) st")
  show ?thesis
  proof (cases g)
    case (Inl err)
    with assms Inr g show ?thesis by (simp add: fetchUsage_def)
  next
    case data: (Inr data)
    obtain a st2 where a: "applyUsageData data st1 = (a, st2)"
      by (cases "applyUsageData data st1")
    with assms Inr g data have "a = None \<and> st2 = st'"
      by (cases a) (simp_all add: fetchUsage_def)
    with a have ok: "applyUsageData data st1 = (None, st')" by simp
    from g data obtain cookie status where
      "server (usageUrl org) = Answered status (Some data)"
      "st1 = st\<lparr>requests := requests st @ [(usageUrl org, cookie)]\<rparr>"
      using get_Inr by blast
    with Inr ok show ?thesis by blast
  qed
qed


lemma applyUsageData_quota:
  assumes "\<bar>s\<bar> \<le> 9007199254740992" "\<bar>w\<bar> \<le> 9007199254740992"
  shows "fst (applyUsageData (quota_payload s w) st) = None
   \<and> details (snd (applyUsageData (quota_payload s w) st)) =
       Some \<lparr>sessionUsed = s, sessionLimit = 200000, sessionReset = JNull,
          weeklyUsed = w, weeklyLimit = 1000000, weeklyReset = JNull\<rparr>"
  by (simp add: applyUsageData_def quota_normalize [OF assms] showReset_def
      scheduleNextPoll_def Let_def)

lemma fetchUsage_quota:
  assumes "\<bar>s\<bar> \<le> 9007199254740992" "\<bar>w\<bar> \<le> 9007199254740992"
  shows "fst (fetchUsage (server_of (quota_payload s w)) indicator0) = Success
   \<and> details (snd (fetchUsage (server_of (quota_payload s w)) indicator0)) =
       Some \<lparr>sessionUsed = s, sessionLimit = 200000, sessionReset = JNull,
          weeklyUsed = w, weeklyLimit = 1000000, weeklyReset = JNull\<rparr>"
proof -
  let ?st1 = "indicator0\<lparr>requests := requests indicator0 @
         [(usageUrl ''org-1'', ''sessionKey=sk-ant-sid01-abc'')]\<rparr>"
  have o: "toStr (orgId indicator0) = Inr ''org-1''" by (simp add: indicator0_def)
  have g: "get (server_of (quota_payload s w)) (usageUrl ''org-1'') indicator0 =
      (Inr (quota_payload s w), ?st1)"
    by (rule get_server_of) (simp add: indicator0_def cookieHeader_settings0)
  obtain a st2 where ap: "applyUsageData (quota_payload s w) ?st1 = (a, st2)"
    by (cases "applyUsageData (quota_payload s w) ?st1")
  with applyUsageData_quota [OF assms, of ?st1]
  have "a = None" "details st2 = Some \<lparr>sessionUsed = s, sessionLimit = 200000,
      sessionReset = JNull, weeklyUsed = w, weeklyLimit = 1000000, weeklyReset = JNull\<rparr>"
    by simp_all
  with ap show ?thesis by (simp add: fetchUsage_def o g)
qed

text \<open>
  C6: after a successful usage fetch the next delay is the active interval if the
  session count or the weekly count is above the value remembered from the previous
  cycle, and the idle interval otherwise; the new counts are remembered and written to
  the settings.
\<close>

theorem adaptive_interval:
  "\<forall>server st st'.
     fetchUsage server st = (Success, st') \<longrightarrow>
       (\<exists>org status data u.
          toStr (orgId st) = Inr org
          \<and> server (usageUrl org) = Answered status (Some data)
          \<and> normalize data = Inr u \<and> details st' = Some u
          \<and> timer st' =
              Some (if lastSessionUsed st < sessionUsed u \<or> lastWeeklyUsed st < weeklyUsed u
                    then poll_interval_active (settings st)
                    else poll_interval_idle (settings st))
          \<and> lastSessionUsed st' = sessionUsed u \<and> lastWeeklyUsed st' = weeklyUsed u
          \<and> last_session_used (settings st') = sessionUsed u
          \<and> last_weekly_used (settings st') = weeklyUsed u)"
proof (intro allI impI)
  fix server st st'
  assume "fetchUsage server st = (Success, st')"
  then obtain org cookie status data where
    o: "toStr (orgId st) = Inr org" "server (usageUrl org) = Answered status (Some data)"
    and a: "applyUsageData data (st\<lparr>requests := requests st @ [(usageUrl org, cookie)]\<rparr>)
          = (None, st')"
    using fetchUsage_success by blast
  from applyUsageData_success [OF a] o
  show "\<exists>org status data u.
          toStr (orgId st) = Inr org
          \<and> server (usageUrl org) = Answered status (Some data)
          \<and> normalize data = Inr u \<and> details st' = Some u
          \<and> timer st' =
              Some (if lastSessionUsed st < sessionUsed u \<or> lastWeeklyUsed st < weeklyUsed u
                    then poll_interval_active (settings st)
                    else poll_interval_idle (settings st))
          \<and> lastSessionUsed st' = sessionUsed u \<and> lastWeeklyUsed st' = weeklyUsed u
          \<and> last_session_used (settings st') = sessionUsed u
          \<and> last_weekly_used (settings st') = weeklyUsed u"
    by auto
qed

theorem adaptive_interval_witness:
  "timer (snd (fetchUsage (server_of rise_payload) indicator0)) = Some 5
   \<and> lastSessionUsed (snd (fetchUsage (server_of rise_payload) indicator0)) = 5000
   \<and> timer (snd (fetchUsage (server_of same_payload) indicator0)) = Some 120
   \<and> last_session_used (settings (snd (fetchUsage (server_of same_payload) indicator0))) = 1000"
proof -
  have last: "lastSessionUsed indicator0 = 1000" "lastWeeklyUsed indicator0 = 7000"
    "poll_interval_active (settings indicator0) = 5"
    "poll_interval_idle (settings indicator0) = 120"
    by (simp_all add: indicator0_def settings0_def)
  obtain st1 where r: "fetchUsage (server_of rise_payload) indicator0 = (Success, st1)"
    and d1: "details st1 = Some \<lparr>sessionUsed = 5000, sessionLimit = 200000,
      sessionReset = JNull, weeklyUsed = 7000, weeklyLimit = 1000000, weeklyReset = JNull\<rparr>"
    using fetchUsage_quota [of 5000 7000]
    by (cases "fetchUsage (server_of rise_payload) indicator0") (simp add: rise_payload_def)
  from adaptive_interval r obtain u where
    "details st1 = Some u"
    "timer st1 = Some (if lastSessionUsed indicator0 < sessionUsed u
        \<or> lastWeeklyUsed indicator0 < weeklyUsed u
        then poll_interval_active (settings indicator0)
        else poll_interval_idle (settings indicator0))"
    "lastSessionUsed st1 = sessionUsed u"
    by blast
  with d1 last have 1: "timer st1 = Some 5" "lastSessionUsed st1 = 5000" by auto
  obtain st2 where s: "fetchUsage (server_of same_payload) indicator0 = (Success, st2)"
    and d2: "details st2 = Some \<lparr>sessionUsed = 1000, sessionLimit = 200000,
      sessionReset = JNull, weeklyUsed = 7000, weeklyLimit = 1000000, weeklyReset = JNull\<rparr>"
    using fetchUsage_quota [of 1000 7000]
    by (cases "fetchUsage (server_of same_payload) indicator0") (simp add: same_payload_def)
  from adaptive_interval s obtain u where
    "details st2 = Some u"
    "timer st2 = Some (if lastSessionUsed indicator0 < sessionUsed u
        \<or> lastWeeklyUsed indicator0 < weeklyUsed u
        then poll_interval_active (settings indicator0)
        else poll_interval_idle (settings indicator0))"
    "last_session_used (settings st2) = sessionUsed u"
    by blast
  with d2 last have 2: "timer st2 = Some 120" "last_session_used (settings st2) = 1000"
    by auto
  from 1 2 r s show ?thesis by simp
qed

section \<open>Failed poll cycles\<close>

















section \<open>The credential check of the fetcher\<close>

lemma cookieHeader_None:
  "cookieHeader g = None \<longleftrightarrow>
     trim (case session_cookie g of None \<Rightarrow> [] | Some s \<Rightarrow> s) = []"
  by (simp add: cookieHeader_def Let_def)

lemma get_no_credential:
  assumes "trim (case session_cookie (settings st) of None \<Rightarrow> [] | Some s \<Rightarrow> s) = []"
  shows "get server url st = (Inl NoCredential, st)"
  using assms by (simp add: get_def cookieHeader_None [symmetric])

lemma get_with_credential:
  assumes "trim (case session_cookie (settings st) of None \<Rightarrow> [] | Some s \<Rightarrow> s) \<noteq> []"
  shows "fst (get server url st) \<noteq> Inl NoCredential
    \<and> length (requests (snd (get server url st))) = Suc (length (requests st))
    \<and> fst (last (requests (snd (get server url st)))) = url"
proof -
  from assms obtain cookie where "cookieHeader (settings st) = Some cookie"
    using cookieHeader_None [of "settings st"] by (cases "cookieHeader (settings st)") auto
  then show ?thesis
    by (simp add: get_def Let_def split: response.splits option.splits)
qed

text \<open>
  C8: with an empty or absent credential (empty after trimming white space) \<^verbatim>\<open>_get\<close>
  fails with \<open>NoCredential\<close> for every URL and every server and sends no request: the
  indicator, with its list of requests, is returned as it was. With any other credential
  exactly one request goes to the URL.
\<close>

theorem no_credential:
  "(\<forall>server url st.
      trim (case session_cookie (settings st) of None \<Rightarrow> [] | Some s \<Rightarrow> s) = [] \<longrightarrow>
        get server url st = (Inl NoCredential, st)
        \<and> requests (snd (get server url st)) = requests st)
   \<and> (\<forall>server url st.
      trim (case session_cookie (settings st) of None \<Rightarrow> [] | Some s \<Rightarrow> s) \<noteq> [] \<longrightarrow>
        fst (get server url st) \<noteq> Inl NoCredential
        \<and> length (requests (snd (get server url st))) = Suc (length (requests st))
        \<and> fst (last (requests (snd (get server url st)))) = url)"
  using get_no_credential get_with_credential by simp

theorem no_credential_witness:
  "get (server_of scenario_usage) ACCOUNT_ENDPOINT indicator_blank =
     (Inl NoCredential, indicator_blank)
   \<and> get server_403 (usageUrl ''org-1'') indicator_absent = (Inl NoCredential, indicator_absent)
   \<and> requests (snd (get server_403 (usageUrl ''org-1'') indicator_absent)) = []
   \<and> length (requests (snd (get server_403 (usageUrl ''org-1'') indicator0))) = 1"
proof -
  have t: "trim ''  '' = []" by code_simp
  have "trim (case session_cookie (settings indicator_blank) of None \<Rightarrow> [] | Some s \<Rightarrow> s) = []"
    by (simp add: indicator_blank_def t)
  with no_credential have 1: "get (server_of scenario_usage) ACCOUNT_ENDPOINT indicator_blank =
     (Inl NoCredential, indicator_blank)"
    by blast
  have t0: "trim [] = []" by (simp add: trim_def)
  have "trim (case session_cookie (settings indicator_absent) of None \<Rightarrow> [] | Some s \<Rightarrow> s) = []"
    by (simp add: indicator_absent_def t0)
  with no_credential have 2: "get server_403 (usageUrl ''org-1'') indicator_absent =
      (Inl NoCredential, indicator_absent)"
    by blast
  then have 3: "requests (snd (get server_403 (usageUrl ''org-1'') indicator_absent)) = []"
    by (simp add: indicator_absent_def indicator0_def)
  have "trim ''sk-ant-sid01-abc'' = ''sk-ant-sid01-abc''" by code_simp
  then have "trim (case session_cookie (settings indicator0) of None \<Rightarrow> [] | Some s \<Rightarrow> s) \<noteq> []"
    by (simp add: indicator0_def settings0_def)
  with no_credential
  have "length (requests (snd (get server_403 (usageUrl ''org-1'') indicator0))) =
      Suc (length (requests indicator0))"
    by blast
  then have 4: "length (requests (snd (get server_403 (usageUrl ''org-1'') indicator0))) = 1"
    by (simp add: indicator0_def)
  from 1 2 3 4 show ?thesis by simp
qed

section \<open>An exception that leaves the timer callback\<close>

text \<open>
  \<^verbatim>\<open>_fetchData\<close> calls \<^verbatim>\<open>_fetchUsage\<close> outside any \<^verbatim>\<open>try\<close>. When the cached
  organization id is truthy and has no string form, the template literal of line 402
  throws before a request is sent: no status is shown and no timer is armed again.
\<close>

theorem uncaught_throw:
  "\<forall>server st e.
     truthy (orgId st) \<and> toStr (orgId st) = Inl e \<longrightarrow>
       timerFired server st = (Thrown e, st\<lparr>timer := None\<rparr>)"
  by (simp add: timerFired_def fetchData_def fetchUsage_def)

theorem uncaught_throw_witness:
  "fst (timerFired server_403 indicator_unprintable) = Thrown TypeError
   \<and> timer (snd (timerFired server_403 indicator_unprintable)) = None
   \<and> requests (snd (timerFired server_403 indicator_unprintable)) = []"
proof -
  have "truthy (orgId indicator_unprintable)"
    "toStr (orgId indicator_unprintable) = Inl TypeError"
    by (simp_all add: indicator_unprintable_def)
  with uncaught_throw
  have "timerFired server_403 indicator_unprintable =
      (Thrown TypeError, indicator_unprintable\<lparr>timer := None\<rparr>)"
    by blast
  then show ?thesis by (simp add: indicator_unprintable_def indicator0_def)
qed

end
